theory Spec2Isabelle
  imports Complex_Main "HOL-Library.Multiset" "HOL-Library.Log_Nat"
begin

section \<open>Python values shared by the scripts\<close>

text \<open>
  The scripts call four libraries: \<open>pathlib\<close>, \<open>pandas\<close>, \<open>pickle\<close> and
  \<open>scikit-learn\<close> (and \<open>catboost\<close> in \<open>train_model.py\<close>). Their functions are
  parameters of the functions below, and what a theorem needs of one is a hypothesis.
  A call of \<open>logger.info\<close> writes a line and returns nothing: it is left out, except
  where the name \<open>logger\<close> itself is at stake.

  The exceptions the scripts raise themselves (\<open>FileNotFoundError\<close>, \<open>ValueError\<close>), the
  ones Python raises on their behalf (\<open>KeyError\<close>, \<open>NameError\<close>, \<open>ZeroDivisionError\<close>,
  \<open>IsADirectoryError\<close>, \<open>NotADirectoryError\<close>, \<open>FileExistsError\<close>, \<open>AttributeError\<close>), and
  \<open>LibraryError\<close> for anything else a library call may raise. \<open>FileNotFoundError\<close>
  carries the path its message prints.
\<close>

datatype 'p error =
    FileNotFoundError 'p
  | ValueError string
  | KeyError string
  | NameError string
  | ZeroDivisionError
  | IsADirectoryError 'p
  | NotADirectoryError 'p
  | FileExistsError 'p
  | AttributeError string
  | LibraryError string

subsection \<open>Paths and the file system\<close>

text \<open>
  \<open>pathlib\<close> is a library: the operations the scripts use are parameters.
  \<open>path_of\<close> is \<open>Path(s)\<close> on a string, \<open>path_div\<close> is the operator \<open>/\<close> with a
  string on the right, \<open>path_suffix\<close>, \<open>path_parent\<close> and \<open>path_parents\<close> are the
  properties \<open>suffix\<close>, \<open>parent\<close> and \<open>parents\<close> (the ancestors of a path, the nearest
  first).
\<close>

record 'p pathlib =
  path_of :: "string \<Rightarrow> 'p"
  path_div :: "'p \<Rightarrow> string \<Rightarrow> 'p"
  path_suffix :: "'p \<Rightarrow> string"
  path_parent :: "'p \<Rightarrow> 'p"
  path_parents :: "'p \<Rightarrow> 'p list"

text \<open>An argument documented as \<open>str/Path\<close>: \<open>isinstance(a, str)\<close> tells the two apart.\<close>

datatype 'p path_arg = Str string | PathObj 'p

fun Path :: "'p pathlib \<Rightarrow> 'p path_arg \<Rightarrow> 'p" where
  "Path pl (Str s) = path_of pl s"
| "Path pl (PathObj p) = p"

text \<open>
  The file system: what resolving each path finds, a regular file, a directory, or
  nothing.
\<close>

datatype 'b node = File 'b | Dir

type_synonym ('p, 'b) fs = "'p \<Rightarrow> 'b node option"

definition path_exists :: "('p, 'b) fs \<Rightarrow> 'p \<Rightarrow> bool" where
  "path_exists files p = (files p \<noteq> None)"

definition is_file :: "('p, 'b) fs \<Rightarrow> 'p \<Rightarrow> bool" where
  "is_file files p = (case files p of Some (File b) \<Rightarrow> True | _ \<Rightarrow> False)"

subsection \<open>Tables\<close>

text \<open>
  A pandas \<open>DataFrame\<close>: the row labels (\<open>df_index\<close>) and the columns in order, each
  with its name, its \<open>dtype\<close> and its values, one per row. The dtypes are those the
  readers produce and the one \<open>identify_categorical_features\<close> names. Text is held in
  a column of dtype \<open>object\<close>, or in one of the dedicated string dtypes of pandas:
  \<open>string\<close> (\<open>StringDtype\<close>, on request) or \<open>str\<close> (what the readers give text from
  pandas 3 on).
\<close>

datatype dtype =
  Int64 | Float64 | Bool | Datetime64 | Object | StringDtype | StrDtype | Category

record 'c column =
  col_name :: string
  col_dtype :: dtype
  col_values :: "'c list"

record 'c dataframe =
  df_index :: "nat list"
  df_columns :: "'c column list"

definition nrows :: "'c dataframe \<Rightarrow> nat" where
  "nrows df = length (df_index df)"

section \<open>\<open>scripts/data_splitting.py\<close>: \<open>DataSplitter.load_dataset\<close>\<close>

text \<open>
  \<open>pd.read_csv\<close> and \<open>pd.read_excel\<close> are parameters: each reads the file system at a
  path and returns a table or raises.
\<close>

record ('p, 'b, 'c) readers =
  read_csv :: "('p, 'b) fs \<Rightarrow> 'p \<Rightarrow> 'p error + 'c dataframe"
  read_excel :: "('p, 'b) fs \<Rightarrow> 'p \<Rightarrow> 'p error + 'c dataframe"

text \<open>The text of the \<open>ValueError\<close> of \<open>load_dataset\<close>, from its ASCII tail on.\<close>

definition unsupported_format :: string where
  "unsupported_format = ''-> Aceita csv e xlsx''"

definition load_dataset ::
  "'p pathlib \<Rightarrow> ('p, 'b, 'c) readers \<Rightarrow> ('p, 'b) fs \<Rightarrow> 'p path_arg \<Rightarrow> 'p error + 'c dataframe" where
  "load_dataset pl pd files dataset_path_arg =
     (let dataset_path = Path pl dataset_path_arg in
      if \<not> path_exists files dataset_path then Inl (FileNotFoundError dataset_path)
      else if path_suffix pl dataset_path = ''.csv'' then read_csv pd files dataset_path
      else if path_suffix pl dataset_path = ''.xlsx'' then read_excel pd files dataset_path
      else Inl (ValueError unsupported_format))"

section \<open>\<open>scripts/data_splitting.py\<close>: \<open>DataSplitter.identify_categorical_features\<close>\<close>

text \<open>
  \<open>str(dtype)\<close>. The comparison \<open>dtype == 'object'\<close> of a dtype with a string holds
  exactly when the string names the dtype, so both tests of the comprehension are
  comparisons of \<open>dtype_str\<close>.
\<close>

fun dtype_str :: "dtype \<Rightarrow> string" where
  "dtype_str Int64 = ''int64''"
| "dtype_str Float64 = ''float64''"
| "dtype_str Bool = ''bool''"
| "dtype_str Datetime64 = ''datetime64[ns]''"
| "dtype_str Object = ''object''"
| "dtype_str StringDtype = ''string''"
| "dtype_str StrDtype = ''str''"
| "dtype_str Category = ''category''"

text \<open>
  \<open>x_train[col].dtype\<close>: selecting a label that names one column gives that column and
  its dtype; a label carried by several columns gives a frame, which has no attribute
  \<open>dtype\<close>.
\<close>

definition getitem_dtype :: "'c dataframe \<Rightarrow> string \<Rightarrow> 'p error + dtype" where
  "getitem_dtype df col =
     (case filter (\<lambda>c. col_name c = col) (df_columns df) of
        [] \<Rightarrow> Inl (KeyError col)
      | [c] \<Rightarrow> Inr (col_dtype c)
      | _ \<Rightarrow> Inl (AttributeError ''dtype''))"

text \<open>The list comprehension over \<open>x_train.columns\<close>, left to right.\<close>

fun categorical_cols_of :: "'c dataframe \<Rightarrow> string list \<Rightarrow> 'p error + string list" where
  "categorical_cols_of x_train [] = Inr []"
| "categorical_cols_of x_train (col # cols) =
     (case getitem_dtype x_train col of
        Inl e \<Rightarrow> Inl e
      | Inr d \<Rightarrow>
          (case categorical_cols_of x_train cols of
             Inl e \<Rightarrow> Inl e
           | Inr rest \<Rightarrow>
               Inr (if dtype_str d = ''object'' \<or> dtype_str d = ''category''
                    then col # rest else rest)))"

definition identify_categorical_features :: "'c dataframe \<Rightarrow> 'p error + string list" where
  "identify_categorical_features x_train =
     categorical_cols_of x_train (map col_name (df_columns x_train))"

text \<open>
  The two kinds of column the specification speaks of: numeric, and text or
  category-typed. A text column has one of the three dtypes that hold text.
\<close>

definition numeric_dtype :: "dtype \<Rightarrow> bool" where
  "numeric_dtype d = (d = Int64 \<or> d = Float64)"

definition text_dtype :: "dtype \<Rightarrow> bool" where
  "text_dtype d = (d = Object \<or> d = StringDtype \<or> d = StrDtype)"

definition text_or_category_dtype :: "dtype \<Rightarrow> bool" where
  "text_or_category_dtype d = (text_dtype d \<or> d = Category)"

section \<open>Persistence: \<open>DataSplitter.save_splits\<close> and \<open>load_data_splits\<close>\<close>

text \<open>
  \<open>pickle\<close> is a parameter: \<open>dump\<close> turns an object into the content of a file or
  raises, \<open>load\<close> reads an object back from a content or raises.
\<close>

record ('p, 'b, 'v) pickle =
  dump :: "'v \<Rightarrow> 'p error + 'b list"
  load :: "'b list \<Rightarrow> 'p error + 'v"

text \<open>\<open>str(n)\<close> of an integer, as the f-string \<open>split_{random_state}\<close> formats the tag.\<close>

definition digit_char :: "nat \<Rightarrow> char" where
  "digit_char d = ''0123456789'' ! d"

function str_nat :: "nat \<Rightarrow> string" where
  "str_nat n = (if n < 10 then [digit_char n] else str_nat (n div 10) @ [digit_char (n mod 10)])"
  by pat_completeness auto
termination
  by (relation "measure (\<lambda>n. n)") auto

declare str_nat.simps [simp del]

definition str_int :: "int \<Rightarrow> string" where
  "str_int i = (if i < 0 then CHR ''-'' # str_nat (nat (- i)) else str_nat (nat i))"

text \<open>
  \<open>mkdir(parents=True, exist_ok=True)\<close>: a regular file among the ancestors of the
  directory is \<open>NotADirectoryError\<close>, a regular file in its place is
  \<open>FileExistsError\<close>; otherwise the directory and every ancestor are directories
  afterwards, those that were there unchanged.
\<close>

definition mkdir ::
  "'p pathlib \<Rightarrow> ('p, 'b list) fs \<Rightarrow> 'p \<Rightarrow> 'p error + ('p, 'b list) fs" where
  "mkdir pl files d =
     (if list_ex (is_file files) (path_parents pl d) then Inl (NotADirectoryError d)
      else if is_file files d then Inl (FileExistsError d)
      else Inr (fold (\<lambda>q fs. fs(q \<mapsto> Dir)) (d # path_parents pl d) files))"

text \<open>
  \<open>open(p, 'wb')\<close> creates the file or empties it, in a directory that is there: a
  regular file among the ancestors is \<open>NotADirectoryError\<close>, a missing ancestor
  \<open>FileNotFoundError\<close>. \<open>open(p, 'rb')\<close> gives the content of the file.
\<close>

definition open_wb ::
  "'p pathlib \<Rightarrow> ('p, 'b list) fs \<Rightarrow> 'p \<Rightarrow> 'p error + ('p, 'b list) fs" where
  "open_wb pl files p =
     (if list_ex (is_file files) (path_parents pl p) then Inl (NotADirectoryError p)
      else if list_ex (\<lambda>q. files q = None) (path_parents pl p) then Inl (FileNotFoundError p)
      else if files p = Some Dir then Inl (IsADirectoryError p)
      else Inr (files(p \<mapsto> File [])))"

definition open_rb :: "('p, 'b list) fs \<Rightarrow> 'p \<Rightarrow> 'p error + 'b list" where
  "open_rb files p =
     (case files p of
        None \<Rightarrow> Inl (FileNotFoundError p)
      | Some Dir \<Rightarrow> Inl (IsADirectoryError p)
      | Some (File b) \<Rightarrow> Inr b)"

text \<open>
  The loop of \<open>save_splits\<close> over \<open>splits_data.items()\<close>, in the dictionary's order. It
  returns the file system it leaves behind also when it stops at an error.
\<close>

fun save_items ::
  "'p pathlib \<Rightarrow> ('p, 'b, 'v) pickle \<Rightarrow> 'p \<Rightarrow> (string \<times> 'v) list \<Rightarrow> ('p, 'b list) fs
     \<Rightarrow> ('p error + unit) \<times> ('p, 'b list) fs" where
  "save_items pl pk full_output_path [] files = (Inr (), files)"
| "save_items pl pk full_output_path ((name, data) # items) files =
     (let file_path = path_div pl full_output_path (name @ ''.pkl'') in
      case open_wb pl files file_path of
        Inl e \<Rightarrow> (Inl e, files)
      | Inr files1 \<Rightarrow>
          (case dump pk data of
             Inl e \<Rightarrow> (Inl e, files1)
           | Inr b \<Rightarrow> save_items pl pk full_output_path items (files1(file_path \<mapsto> File b))))"

text \<open>
  \<open>script_dir\<close> is \<open>Path(__file__).parent\<close>, the directory that holds both scripts.
  \<open>splits_data\<close> is the dictionary as the list of its items.
\<close>

definition save_splits ::
  "'p pathlib \<Rightarrow> ('p, 'b, 'v) pickle \<Rightarrow> 'p \<Rightarrow> ('p, 'b list) fs \<Rightarrow> (string \<times> 'v) list
     \<Rightarrow> 'p path_arg \<Rightarrow> int option \<Rightarrow> ('p error + unit) \<times> ('p, 'b list) fs" where
  "save_splits pl pk script_dir files splits_data output_dir random_state =
     (let project_root = path_parent pl script_dir;
          full_output_path =
            (case output_dir of
               Str s \<Rightarrow> path_div pl project_root s
             | PathObj p \<Rightarrow> p);
          full_output_path =
            (case random_state of
               Some n \<Rightarrow> path_div pl full_output_path (''split_'' @ str_int n)
             | None \<Rightarrow> full_output_path)
      in case mkdir pl files full_output_path of
           Inl e \<Rightarrow> (Inl e, files)
         | Inr files1 \<Rightarrow> save_items pl pk full_output_path splits_data files1)"

text \<open>\<open>s.replace(old, new)\<close>: every occurrence of \<open>old\<close>, from the left, without overlap.\<close>

function replace_from :: "string \<Rightarrow> string \<Rightarrow> string \<Rightarrow> string" where
  "replace_from old new [] = []"
| "replace_from old new (c # cs) =
     (if old \<noteq> [] \<and> take (length old) (c # cs) = old
      then new @ replace_from old new (drop (length old) (c # cs))
      else c # replace_from old new cs)"
  by pat_completeness auto
termination
  by (relation "measure (\<lambda>(old, new, s). length s)") auto

definition str_replace :: "string \<Rightarrow> string \<Rightarrow> string \<Rightarrow> string" where
  "str_replace s old new =
     (if old = [] then new @ concat (map (\<lambda>c. c # new) s) else replace_from old new s)"

definition required_files :: "string list" where
  "required_files =
     [''x_train.pkl'', ''x_val.pkl'', ''x_test.pkl'',
      ''y_train.pkl'', ''y_val.pkl'', ''y_test.pkl'',
      ''categorical_cols.pkl'']"

text \<open>The first loop of \<open>load_data_splits\<close>: it raises at the first file that is not there.\<close>

fun check_required :: "'p pathlib \<Rightarrow> ('p, 'b list) fs \<Rightarrow> 'p \<Rightarrow> string list \<Rightarrow> 'p error option" where
  "check_required pl files full_splits_path [] = None"
| "check_required pl files full_splits_path (file # rest) =
     (let file_path = path_div pl full_splits_path file in
      if \<not> path_exists files file_path then Some (FileNotFoundError file_path)
      else check_required pl files full_splits_path rest)"

text \<open>
  The second loop: \<open>loaded_data\<close> is the dictionary built so far, and the list beside
  it records, in order, the paths whose content was handed to \<open>pickle.load\<close>.
\<close>

fun load_required ::
  "'p pathlib \<Rightarrow> ('p, 'b, 'v) pickle \<Rightarrow> ('p, 'b list) fs \<Rightarrow> 'p \<Rightarrow> string list
     \<Rightarrow> (string \<Rightarrow> 'v option) \<Rightarrow> 'p list \<Rightarrow> ('p error + (string \<Rightarrow> 'v option)) \<times> 'p list" where
  "load_required pl pk files full_splits_path [] loaded_data unpickled = (Inr loaded_data, unpickled)"
| "load_required pl pk files full_splits_path (file_name # rest) loaded_data unpickled =
     (let name = str_replace file_name ''.pkl'' '''';
          file_path = path_div pl full_splits_path file_name
      in case open_rb files file_path of
           Inl e \<Rightarrow> (Inl e, unpickled)
         | Inr b \<Rightarrow>
             (case load pk b of
                Inl e \<Rightarrow> (Inl e, unpickled @ [file_path])
              | Inr v \<Rightarrow>
                  load_required pl pk files full_splits_path rest
                    (loaded_data(name \<mapsto> v)) (unpickled @ [file_path])))"

definition load_data_splits ::
  "'p pathlib \<Rightarrow> ('p, 'b, 'v) pickle \<Rightarrow> 'p \<Rightarrow> ('p, 'b list) fs \<Rightarrow> 'p path_arg \<Rightarrow> int option
     \<Rightarrow> ('p error + (string \<Rightarrow> 'v option)) \<times> 'p list" where
  "load_data_splits pl pk script_dir files splits_path random_state =
     (let project_root = path_parent pl script_dir;
          full_splits_path =
            (case splits_path of
               Str s \<Rightarrow> path_div pl project_root s
             | PathObj p \<Rightarrow> p);
          full_splits_path =
            (case random_state of
               Some n \<Rightarrow> path_div pl full_splits_path (''split_'' @ str_int n)
             | None \<Rightarrow> full_splits_path)
      in case check_required pl files full_splits_path required_files of
           Some e \<Rightarrow> (Inl e, [])
         | None \<Rightarrow> load_required pl pk files full_splits_path required_files Map.empty [])"

text \<open>
  The directory both functions resolve, and the first of the expected files that is
  absent from it, if any.
\<close>

definition split_dir :: "'p pathlib \<Rightarrow> 'p \<Rightarrow> 'p path_arg \<Rightarrow> int option \<Rightarrow> 'p" where
  "split_dir pl script_dir dir_root tag =
     (let base = (case dir_root of Str s \<Rightarrow> path_div pl (path_parent pl script_dir) s | PathObj p \<Rightarrow> p)
      in case tag of Some n \<Rightarrow> path_div pl base (''split_'' @ str_int n) | None \<Rightarrow> base)"

definition first_missing :: "'p pathlib \<Rightarrow> ('p, 'b list) fs \<Rightarrow> 'p \<Rightarrow> string option" where
  "first_missing pl files d =
     find (\<lambda>f. \<not> path_exists files (path_div pl d f)) required_files"

text \<open>
  The seven named items of a bundle, and what the round trip asks of \<open>pickle\<close> on a
  value: dumping it succeeds and loading the result gives the value back.
\<close>

definition bundle_names :: "string list" where
  "bundle_names =
     [''x_train'', ''x_val'', ''x_test'', ''y_train'', ''y_val'', ''y_test'', ''categorical_cols'']"

definition pickles_back :: "('p, 'b, 'v) pickle \<Rightarrow> 'v \<Rightarrow> bool" where
  "pickles_back pk v = (case dump pk v of Inl e \<Rightarrow> False | Inr b \<Rightarrow> load pk b = Inr v)"

section \<open>\<open>scripts/data_splitting.py\<close>: \<open>DataSplitter.split_data\<close>\<close>

subsection \<open>Python floats\<close>

text \<open>
  A Python float is an IEEE 754 double: a rational \<open>m * 2 ^ e\<close> with \<open>\<bar>m\<bar> < 2 ^ 53\<close> and
  \<open>- 1074 \<le> e\<close>. \<open>fl x\<close> is the double nearest to \<open>x\<close>, a tie going to the even \<open>m\<close>.
  The result of \<open>-\<close>, \<open>*\<close> or \<open>/\<close> on floats is \<open>fl\<close> of the exact result, and the
  literal \<open>0.2\<close> denotes \<open>fl (1 / 5)\<close>. Overflow is left out: no quantity of the scripts
  comes near \<open>2 ^ 1024\<close>.
\<close>

definition pow2 :: "int \<Rightarrow> rat" where
  "pow2 e = (if 0 \<le> e then 2 ^ nat e else 1 / 2 ^ nat (- e))"

text \<open>The \<open>d\<close> with \<open>2 ^ d \<le> a < 2 ^ (d + 1)\<close>, for a positive \<open>a\<close>.\<close>

definition floor_log2 :: "rat \<Rightarrow> int" where
  "floor_log2 a =
     (let d = bitlen (fst (quotient_of a)) - bitlen (snd (quotient_of a))
      in if pow2 d \<le> a then d else d - 1)"

definition round_half_even :: "rat \<Rightarrow> int" where
  "round_half_even x =
     (let f = \<lfloor>x\<rfloor>; r = x - of_int f
      in if r < 1 / 2 then f else if 1 / 2 < r then f + 1 else if even f then f else f + 1)"

definition fl :: "rat \<Rightarrow> rat" where
  "fl x =
     (if x = 0 then 0
      else (let e = max (floor_log2 \<bar>x\<bar> - 52) (- 1074)
            in sgn x * of_int (round_half_even (\<bar>x\<bar> / pow2 e)) * pow2 e))"

subsection \<open>The splitter and its tables\<close>

text \<open>
  The attributes \<open>__init__\<close> stores. A fraction is a Python float: the record holds the
  number that was written for it and every use reads the double \<open>fl\<close> of that number,
  which is the number itself when it is a double.
\<close>

record splitter =
  test_size :: rat
  validation_size :: rat
  random_state :: "int option"

text \<open>\<open>df.iloc[ps]\<close>: the rows at the positions \<open>ps\<close>, in that order.\<close>

definition iloc :: "'c dataframe \<Rightarrow> nat list \<Rightarrow> 'c dataframe" where
  "iloc df ps =
     \<lparr> df_index = map (\<lambda>i. df_index df ! i) ps,
       df_columns =
         map (\<lambda>c. c\<lparr> col_values := map (\<lambda>i. col_values c ! i) ps \<rparr>) (df_columns df) \<rparr>"

text \<open>
  \<open>dataset.drop(target_col, axis=1)\<close> removes every column that carries the label and
  \<open>dataset[target_col]\<close> selects them (one column, in a table whose names are distinct);
  both raise \<open>KeyError\<close> when no column carries it. The row labels stay.
\<close>

definition feature_columns :: "'c dataframe \<Rightarrow> string \<Rightarrow> 'c dataframe" where
  "feature_columns df col = df\<lparr> df_columns := filter (\<lambda>c. col_name c \<noteq> col) (df_columns df) \<rparr>"

definition label_columns :: "'c dataframe \<Rightarrow> string \<Rightarrow> 'c dataframe" where
  "label_columns df col = df\<lparr> df_columns := filter (\<lambda>c. col_name c = col) (df_columns df) \<rparr>"

definition drop_columns :: "'c dataframe \<Rightarrow> string \<Rightarrow> 'p error + 'c dataframe" where
  "drop_columns df col =
     (if col \<in> set (map col_name (df_columns df)) then Inr (feature_columns df col)
      else Inl (KeyError col))"

definition getitem :: "'c dataframe \<Rightarrow> string \<Rightarrow> 'p error + 'c dataframe" where
  "getitem df col =
     (if col \<in> set (map col_name (df_columns df)) then Inr (label_columns df col)
      else Inl (KeyError col))"

text \<open>
  \<open>sklearn.model_selection.train_test_split\<close> is a parameter. Its arguments are, in
  this order: the state of the global random generator (which a call without a seed
  reads and advances), \<open>x\<close>, \<open>y\<close>, \<open>test_size\<close>, \<open>stratify\<close> and \<open>random_state\<close>;
  \<open>shuffle=True\<close> in both calls. It returns the train and test parts of \<open>x\<close>, then those
  of \<open>y\<close>, or raises. The two float computations of \<open>split_data\<close> itself are
  \<open>1 - self.test_size\<close> and the division by it, which raises \<open>ZeroDivisionError\<close> on
  \<open>0.0\<close>.
\<close>

type_synonym ('g, 'c, 'p) train_test_split =
  "'g \<Rightarrow> 'c dataframe \<Rightarrow> 'c dataframe \<Rightarrow> rat \<Rightarrow> 'c dataframe \<Rightarrow> int option
     \<Rightarrow> ('p error + 'c dataframe \<times> 'c dataframe \<times> 'c dataframe \<times> 'c dataframe) \<times> 'g"

definition split_data ::
  "('g, 'c, 'p) train_test_split \<Rightarrow> splitter \<Rightarrow> 'g \<Rightarrow> 'c dataframe \<Rightarrow> string
     \<Rightarrow> ('p error + 'c dataframe \<times> 'c dataframe \<times> 'c dataframe
                     \<times> 'c dataframe \<times> 'c dataframe \<times> 'c dataframe) \<times> 'g" where
  "split_data train_test_split self g dataset target_col =
     (case drop_columns dataset target_col of
        Inl e \<Rightarrow> (Inl e, g)
      | Inr x \<Rightarrow>
     (case getitem dataset target_col of
        Inl e \<Rightarrow> (Inl e, g)
      | Inr y \<Rightarrow>
     (case train_test_split g x y (fl (test_size self)) y (random_state self) of
        (Inl e, g1) \<Rightarrow> (Inl e, g1)
      | (Inr (x_train, x_test, y_train, y_test), g1) \<Rightarrow>
          if fl (1 - fl (test_size self)) = 0 then (Inl ZeroDivisionError, g1)
          else
            (let val_size_adjusted =
                   fl (fl (validation_size self) / fl (1 - fl (test_size self))) in
             case train_test_split g1 x_train y_train val_size_adjusted y_train (random_state self) of
               (Inl e, g2) \<Rightarrow> (Inl e, g2)
             | (Inr (x_train, x_val, y_train, y_val), g2) \<Rightarrow>
                 (Inr (x_train, x_val, x_test, y_train, y_val, y_test), g2)))))"

text \<open>The value of the local variable \<open>val_size_adjusted\<close>.\<close>

definition val_size_adjusted :: "splitter \<Rightarrow> rat" where
  "val_size_adjusted self = fl (fl (validation_size self) / fl (1 - fl (test_size self)))"

subsection \<open>Rows, classes and what is asked of \<open>train_test_split\<close>\<close>

text \<open>
  A row of a table is its label with its values; the class of a row of the label
  column is its values.
\<close>

definition row_at :: "'c dataframe \<Rightarrow> nat \<Rightarrow> nat \<times> 'c list" where
  "row_at df i = (df_index df ! i, map (\<lambda>c. col_values c ! i) (df_columns df))"

definition rows :: "'c dataframe \<Rightarrow> (nat \<times> 'c list) list" where
  "rows df = map (row_at df) [0..<nrows df]"

definition label_rows :: "'c dataframe \<Rightarrow> 'c list list" where
  "label_rows df = map snd (rows df)"

definition class_count :: "'c dataframe \<Rightarrow> 'c list \<Rightarrow> nat" where
  "class_count y k = count_list (label_rows y) k"

text \<open>The size of the least populated class (the number of rows when there is none).\<close>

definition least_class_count :: "'c dataframe \<Rightarrow> nat" where
  "least_class_count y = fold min (map (class_count y) (label_rows y)) (nrows y)"

text \<open>
  The number of rows of the test part, \<open>ceil(test_size * n_samples)\<close> with the product
  a float, and the documented domain of a stratified call on the labels \<open>y\<close>: a
  fraction in \<open>(0, 1)\<close>, a train part that is not empty, two members at least of every
  class, and a train and a test part with at least as many rows as there are classes.
\<close>

definition n_test_of :: "rat \<Rightarrow> nat \<Rightarrow> nat" where
  "n_test_of ts n = nat \<lceil>fl (ts * of_nat n)\<rceil>"


text \<open>
  Six properties of the library function, each needed by some claim. They speak of a
  call that stratifies by its own labels, on features and labels with the same row
  labels, as both calls of \<open>split_data\<close> are.
  \<^item> \<open>tts_partitions\<close>: the two parts hold the rows of the input, each once, and the
    label parts go with the feature parts;
  \<^item> \<open>tts_selects\<close>: more precisely, the parts are selections of rows by position: every
    position of the input is in the train or in the test part, once, and the label
    parts select the same positions as the feature parts;
  \<^item> \<open>tts_accepts\<close>: the call returns on its documented domain;
  \<^item> \<open>tts_seeded\<close>: with a seed, the result does not depend on the global generator;
  \<^item> \<open>tts_sized\<close>: the test part has \<open>ceil(test_size * n)\<close> rows;
  \<^item> \<open>tts_stratified\<close>: in the test part every class is within one row of its
    proportional share.
\<close>

definition tts_partitions :: "('g, 'c, 'p) train_test_split \<Rightarrow> bool" where
  "tts_partitions tts =
     (\<forall>g x y ts rs a b c d g'.
        df_index y = df_index x \<longrightarrow> tts g x y ts y rs = (Inr (a, b, c, d), g') \<longrightarrow>
          mset (rows a) + mset (rows b) = mset (rows x)
        \<and> mset (rows c) + mset (rows d) = mset (rows y)
        \<and> df_index c = df_index a \<and> df_index d = df_index b)"



definition tts_seeded :: "('g, 'c, 'p) train_test_split \<Rightarrow> bool" where
  "tts_seeded tts =
     (\<forall>g g' x y ts s. fst (tts g x y ts y (Some s)) = fst (tts g' x y ts y (Some s)))"

definition tts_sized :: "('g, 'c, 'p) train_test_split \<Rightarrow> bool" where
  "tts_sized tts =
     (\<forall>g x y ts rs a b c d g'.
        df_index y = df_index x \<longrightarrow> tts g x y ts y rs = (Inr (a, b, c, d), g') \<longrightarrow>
          int (nrows b) = \<lceil>fl (ts * of_nat (nrows x))\<rceil>)"

definition tts_stratified :: "('g, 'c, 'p) train_test_split \<Rightarrow> bool" where
  "tts_stratified tts =
     (\<forall>g x y ts rs a b c d g' k.
        df_index y = df_index x \<longrightarrow> tts g x y ts y rs = (Inr (a, b, c, d), g') \<longrightarrow>
          \<bar>int (class_count d k) * int (nrows y) - int (class_count y k) * int (nrows d)\<bar>
            < int (nrows y))"

text \<open>The sizes of the three partitions of a result, and their members of one class.\<close>

definition partition_sizes ::
  "('p error + 'c dataframe \<times> 'c dataframe \<times> 'c dataframe
       \<times> 'c dataframe \<times> 'c dataframe \<times> 'c dataframe) \<times> 'g \<Rightarrow> (nat \<times> nat \<times> nat) option" where
  "partition_sizes res =
     (case fst res of
        Inl e \<Rightarrow> None
      | Inr (x_train, x_val, x_test, y_train, y_val, y_test) \<Rightarrow>
          Some (nrows x_train, nrows x_val, nrows x_test))"

definition partition_members ::
  "'c list \<Rightarrow> ('p error + 'c dataframe \<times> 'c dataframe \<times> 'c dataframe
       \<times> 'c dataframe \<times> 'c dataframe \<times> 'c dataframe) \<times> 'g \<Rightarrow> (nat \<times> nat \<times> nat) option" where
  "partition_members k res =
     (case fst res of
        Inl e \<Rightarrow> None
      | Inr (x_train, x_val, x_test, y_train, y_val, y_test) \<Rightarrow>
          Some (class_count y_train k, class_count y_val k, class_count y_test k))"


text \<open>``Approximately'' in the end-to-end scenario: within a tenth of the stated number.\<close>

definition about :: "nat \<Rightarrow> nat \<Rightarrow> bool" where
  "about n m = (10 * \<bar>int n - int m\<bar> \<le> int m)"

section \<open>\<open>scripts/train_model.py\<close>: \<open>catboost_pools\<close>\<close>

text \<open>
  The names bound at the top level of \<open>train_model.py\<close>: the import of \<open>Pool\<close> and the
  definition of \<open>catboost_pools\<close>. A name read inside a function that is not local is
  looked up among them when the statement runs.
\<close>

definition train_model_globals :: "string list" where
  "train_model_globals = [''Pool'', ''catboost_pools'']"

definition load_global :: "string list \<Rightarrow> string \<Rightarrow> 'p error + unit" where
  "load_global globals name = (if name \<in> set globals then Inr () else Inl (NameError name))"

text \<open>
  \<open>Pool\<close> is catboost's constructor, a parameter: features, labels and \<open>cat_features\<close>
  give a pool or an error of the library. The first statement of the function reads the
  global \<open>logger\<close>, and so does the one before \<open>return\<close>.
\<close>

definition catboost_pools ::
  "string list \<Rightarrow> ('x \<Rightarrow> 'y \<Rightarrow> string list \<Rightarrow> 'p error + 'pool)
     \<Rightarrow> 'x \<Rightarrow> 'x \<Rightarrow> 'x \<Rightarrow> 'y \<Rightarrow> 'y \<Rightarrow> 'y \<Rightarrow> string list \<Rightarrow> 'p error + 'pool \<times> 'pool \<times> 'pool" where
  "catboost_pools globals Pool x_train x_val x_test y_train y_val y_test categorical_cols =
     (case load_global globals ''logger'' of
        Inl e \<Rightarrow> Inl e
      | Inr _ \<Rightarrow>
     (case Pool x_train y_train categorical_cols of
        Inl e \<Rightarrow> Inl e
      | Inr train_pool \<Rightarrow>
     (case Pool x_val y_val categorical_cols of
        Inl e \<Rightarrow> Inl e
      | Inr val_pool \<Rightarrow>
     (case Pool x_test y_test categorical_cols of
        Inl e \<Rightarrow> Inl e
      | Inr test_pool \<Rightarrow>
     (case load_global globals ''logger'' of
        Inl e \<Rightarrow> Inl e
      | Inr _ \<Rightarrow> Inr (train_pool, val_pool, test_pool))))))"

section \<open>A reference environment\<close>

text \<open>
  A concrete instance of every library parameter, on which the theorems are exercised:
  paths are POSIX strings, a data file holds a table directly.
\<close>

definition posix_name :: "string \<Rightarrow> string" where
  "posix_name p = rev (takeWhile (\<lambda>c. c \<noteq> CHR ''/'') (rev p))"

definition posix_suffix :: "string \<Rightarrow> string" where
  "posix_suffix p =
     (let name = posix_name p;
          ext = takeWhile (\<lambda>c. c \<noteq> CHR ''.'') (rev name)
      in if length ext < length name \<and> 0 < length name - length ext - 1 \<and> ext \<noteq> []
         then CHR ''.'' # rev ext else [])"

text \<open>
  The ancestors of a path: what stands before each of its slashes, the root for the
  first slash of an absolute path, and the current directory \<open>.\<close> at the end of a
  relative one. The parent is the first of them, the path itself when there is none.
\<close>

fun posix_cuts :: "string \<Rightarrow> string \<Rightarrow> string list" where
  "posix_cuts seen [] = []"
| "posix_cuts seen (c # cs) =
     (if c = CHR ''/'' then (if seen = [] then ''/'' else seen) # posix_cuts (seen @ [c]) cs
      else posix_cuts (seen @ [c]) cs)"

definition posix_parents :: "string \<Rightarrow> string list" where
  "posix_parents p =
     (if p = ''/'' \<or> p = ''.'' then []
      else rev (posix_cuts [] p) @ (if take 1 p = ''/'' then [] else [''.'']))"

definition posix_parent :: "string \<Rightarrow> string" where
  "posix_parent p = (case posix_parents p of [] \<Rightarrow> p | q # qs \<Rightarrow> q)"

definition posix :: "string pathlib" where
  "posix = \<lparr> path_of = (\<lambda>s. s), path_div = (\<lambda>p s. p @ ''/'' @ s),
             path_suffix = posix_suffix, path_parent = posix_parent,
             path_parents = posix_parents \<rparr>"

definition table_readers :: "(string, 'c dataframe, 'c) readers" where
  "table_readers =
     \<lparr> read_csv = (\<lambda>files p. case files p of
           Some (File t) \<Rightarrow> Inr t
         | Some Dir \<Rightarrow> Inl (IsADirectoryError p)
         | None \<Rightarrow> Inl (FileNotFoundError p)),
       read_excel = (\<lambda>files p. case files p of
           Some (File t) \<Rightarrow> Inr t
         | Some Dir \<Rightarrow> Inl (IsADirectoryError p)
         | None \<Rightarrow> Inl (FileNotFoundError p)) \<rparr>"

text \<open>Cell values: integers and text.\<close>

datatype cell = I int | S string

definition compras :: "cell dataframe" where
  "compras =
     \<lparr> df_index = [0, 1],
       df_columns =
         [\<lparr> col_name = ''Valor'', col_dtype = Int64, col_values = [I 10, I 20] \<rparr>,
          \<lparr> col_name = ''Fornecedor'', col_dtype = Object, col_values = [S ''ACME'', S ''Lda''] \<rparr>,
          \<lparr> col_name = ''Categoria'', col_dtype = Category, col_values = [S ''bens'', S ''obras''] \<rparr>,
          \<lparr> col_name = ''Preco'', col_dtype = Float64, col_values = [I 3, I 4] \<rparr>] \<rparr>"

text \<open>The same purchases with the supplier's name held in the string dtype \<open>str\<close>.\<close>

definition compras_str :: "cell dataframe" where
  "compras_str =
     \<lparr> df_index = [0, 1],
       df_columns =
         [\<lparr> col_name = ''Valor'', col_dtype = Int64, col_values = [I 10, I 20] \<rparr>,
          \<lparr> col_name = ''Fornecedor'', col_dtype = StrDtype, col_values = [S ''ACME'', S ''Lda''] \<rparr>,
          \<lparr> col_name = ''Categoria'', col_dtype = Category, col_values = [S ''bens'', S ''obras''] \<rparr>,
          \<lparr> col_name = ''Preco'', col_dtype = Float64, col_values = [I 3, I 4] \<rparr>] \<rparr>"

definition disk :: "(string, cell dataframe) fs" where
  "disk = (\<lambda>p. None)(''data/compras.csv'' \<mapsto> File compras,
                     ''data/compras.xlsx'' \<mapsto> File compras,
                     ''data/compras.txt'' \<mapsto> File compras)"

text \<open>
  Python objects that are pickled, and a pickle over them: the content of a file is the
  one object dumped to it.
\<close>

datatype pyobj = Frame "cell dataframe" | StrList "string list"

definition obj_pickle :: "(string, pyobj, pyobj) pickle" where
  "obj_pickle =
     \<lparr> dump = (\<lambda>v. Inr [v]),
       load = (\<lambda>b. case b of [v] \<Rightarrow> Inr v | _ \<Rightarrow> Inl (LibraryError ''UnpicklingError'')) \<rparr>"

definition labels_of :: "int list \<Rightarrow> cell dataframe" where
  "labels_of ls =
     \<lparr> df_index = [0..<length ls],
       df_columns = [\<lparr> col_name = ''Elegivel'', col_dtype = Int64, col_values = map I ls \<rparr>] \<rparr>"

definition demo_bundle :: "(string \<times> pyobj) list" where
  "demo_bundle =
     [(''x_train'', Frame compras), (''x_val'', Frame compras), (''x_test'', Frame compras),
      (''y_train'', Frame (labels_of [0, 1])), (''y_val'', Frame (labels_of [1, 0])),
      (''y_test'', Frame (labels_of [0, 0])),
      (''categorical_cols'', StrList [''Fornecedor'', ''Categoria''])]"

text \<open>
  A disk with the root directory and nothing else, and one where the path
  \<open>/repo/outputs\<close> is a regular file.
\<close>

definition empty_disk :: "(string, pyobj list) fs" where
  "empty_disk = (\<lambda>p. None)(''/'' \<mapsto> Dir)"

definition blocked_disk :: "(string, pyobj list) fs" where
  "blocked_disk = (\<lambda>p. None)(''/'' \<mapsto> Dir, ''/repo'' \<mapsto> Dir, ''/repo/outputs'' \<mapsto> File [])"

text \<open>A split directory from which \<open>y_val.pkl\<close> and \<open>y_test.pkl\<close> are missing.\<close>

definition torn_disk :: "(string, pyobj list) fs" where
  "torn_disk =
     (\<lambda>p. None)(''/'' \<mapsto> Dir, ''/repo'' \<mapsto> Dir, ''/repo/outputs'' \<mapsto> Dir,
       ''/repo/outputs/splits'' \<mapsto> Dir,
       ''/repo/outputs/splits/split_1'' \<mapsto> Dir,
       ''/repo/outputs/splits/split_1/x_train.pkl'' \<mapsto> File [Frame compras],
       ''/repo/outputs/splits/split_1/x_val.pkl'' \<mapsto> File [Frame compras],
       ''/repo/outputs/splits/split_1/x_test.pkl'' \<mapsto> File [Frame compras],
       ''/repo/outputs/splits/split_1/y_train.pkl'' \<mapsto> File [Frame (labels_of [0, 1])],
       ''/repo/outputs/splits/split_1/categorical_cols.pkl'' \<mapsto> File [StrList []])"

subsection \<open>A reference splitter\<close>

text \<open>
  An instance of \<open>train_test_split\<close> for the six properties above. It follows the
  documented behaviour of the library where that is determined: the test part has
  \<open>ceil(test_size * n)\<close> rows and the train part the rest; a fraction outside \<open>(0, 1)\<close>,
  an empty train part, a class with a single member, and a train or test part smaller
  than the number of classes are \<open>ValueError\<close>s. The random draw is replaced by a
  fixed rule: the rows are taken in table order rotated by the seed (by the state of the
  global generator when there is no seed), and each class gives the train part its
  proportional share, the running total rounded down. Which rows a part holds, and
  how many of a class when the shares of two classes have the same fractional part, is
  the library's random choice: the examples below state of this instance only what
  holds of every such choice, or say so.
\<close>

fun alloc :: "nat \<Rightarrow> nat \<Rightarrow> nat \<Rightarrow> ('k \<times> nat) list \<Rightarrow> ('k \<times> nat) list" where
  "alloc d n p [] = []"
| "alloc d n p ((k, c) # kcs) =
     (k, ((p + c) * d) div n - (p * d) div n) # alloc d n (p + c) kcs"

definition class_list :: "'k list \<Rightarrow> ('k \<times> nat) list" where
  "class_list ls = map (\<lambda>k. (k, count_list ls k)) (remdups ls)"

definition quota :: "nat \<Rightarrow> 'k list \<Rightarrow> 'k \<Rightarrow> nat" where
  "quota d ls k =
     (case map_of (alloc d (length ls) 0 (class_list ls)) k of
        Some q \<Rightarrow> q
      | None \<Rightarrow> 0)"

fun pick :: "('a \<Rightarrow> 'k) \<Rightarrow> ('k \<Rightarrow> nat) \<Rightarrow> 'a list \<Rightarrow> 'a list \<times> 'a list" where
  "pick key q [] = ([], [])"
| "pick key q (a # as) =
     (if 0 < q (key a)
      then (case pick key (q(key a := q (key a) - 1)) as of (train, test) \<Rightarrow> (a # train, test))
      else (case pick key q as of (train, test) \<Rightarrow> (train, a # test)))"

definition ref_error :: "'c dataframe \<Rightarrow> 'c dataframe \<Rightarrow> rat \<Rightarrow> 'c dataframe \<Rightarrow> string option" where
  "ref_error x y ts stratify =
     (let n = nrows x;
          n_test = n_test_of ts n;
          n_train = n - n_test;
          n_classes = length (remdups (label_rows stratify))
      in if nrows y \<noteq> n \<or> nrows stratify \<noteq> n then Some ''inconsistent numbers of samples''
         else if ts \<le> 0 \<or> 1 \<le> ts then Some ''test_size outside (0, 1)''
         else if n_train = 0 then Some ''the resulting train set will be empty''
         else if least_class_count stratify < 2
           then Some ''the least populated class has only 1 member''
         else if n_train < n_classes then Some ''train_size less than the number of classes''
         else if n_test < n_classes then Some ''test_size less than the number of classes''
         else None)"

definition ref_draw :: "nat \<Rightarrow> nat \<Rightarrow> 'k list \<Rightarrow> nat list \<times> nat list" where
  "ref_draw seed n_train ls =
     pick (\<lambda>i. ls ! i) (quota n_train ls) (rotate seed [0..<length ls])"

definition ref_split :: "(nat, 'c, 'p) train_test_split" where
  "ref_split g x y ts stratify rs =
     (case ref_error x y ts stratify of
        Some msg \<Rightarrow> (Inl (ValueError msg), g)
      | None \<Rightarrow>
          (let seed = (case rs of Some s \<Rightarrow> nat \<bar>s\<bar> | None \<Rightarrow> g);
               g' = (case rs of Some s \<Rightarrow> g | None \<Rightarrow> Suc g);
               n_train = nrows x - n_test_of ts (nrows x)
           in case ref_draw seed n_train (label_rows stratify) of
                (train, test) \<Rightarrow> (Inr (iloc x train, iloc x test, iloc y train, iloc y test), g')))"

text \<open>
  Purchases with a value and the eligibility label \<open>Elegivel\<close>, from the list of the
  labels; the splitter of the script's \<open>main\<close>; the tables of the examples.
\<close>

definition purchases :: "int list \<Rightarrow> cell dataframe" where
  "purchases ls =
     \<lparr> df_index = [0..<length ls],
       df_columns =
         [\<lparr> col_name = ''Valor'', col_dtype = Int64, col_values = map (\<lambda>i. I (int i)) [0..<length ls] \<rparr>,
          \<lparr> col_name = ''Elegivel'', col_dtype = Int64, col_values = map I ls \<rparr>] \<rparr>"

definition features :: "int list \<Rightarrow> cell dataframe" where
  "features ls =
     \<lparr> df_index = [0..<length ls],
       df_columns =
         [\<lparr> col_name = ''Valor'', col_dtype = Int64, col_values = map (\<lambda>i. I (int i)) [0..<length ls] \<rparr>] \<rparr>"

definition main_splitter :: splitter where
  "main_splitter = \<lparr> test_size = 1 / 5, validation_size = 1 / 5, random_state = Some 1 \<rparr>"

text \<open>The fractions 0.2 and 0.1, for which the second stage takes \<open>0.1 / 0.8 = 0.125\<close>.\<close>

definition tenth_splitter :: splitter where
  "tenth_splitter = \<lparr> test_size = 1 / 5, validation_size = 1 / 10, random_state = Some 1 \<rparr>"

definition four_rows :: "int list" where
  "four_rows = [0, 0, 1, 1]"

definition ten_rows :: "int list" where
  "ten_rows = [0, 0, 0, 0, 0, 0, 0, 0, 1, 1]"


definition rare_rows :: "int list" where
  "rare_rows = replicate 18 0 @ replicate 2 1"

definition thousand_rows :: "int list" where
  "thousand_rows = replicate 800 0 @ replicate 200 1"

section \<open>Properties of \<open>load_dataset\<close>\<close>

lemma posix_suffix_csv: "posix_suffix ''data/compras.csv'' = ''.csv''"
  by (simp add: posix_suffix_def posix_name_def)

lemma posix_suffix_xlsx: "posix_suffix ''data/compras.xlsx'' = ''.xlsx''"
  by (simp add: posix_suffix_def posix_name_def)

lemma posix_suffix_txt: "posix_suffix ''data/compras.txt'' = ''.txt''"
  by (simp add: posix_suffix_def posix_name_def)

lemma posix_suffix_missing: "posix_suffix ''data/missing.csv'' = ''.csv''"
  by (simp add: posix_suffix_def posix_name_def)

text \<open>
  C6. \<open>load_dataset\<close> raises the not-found error when the path does not exist, the
  unsupported-format error for every existing path whose suffix is neither \<open>.csv\<close> nor
  \<open>.xlsx\<close>, and for an existing \<open>.csv\<close> or \<open>.xlsx\<close> path returns what the reader of
  that format returns, unchanged: it validates nothing else.
\<close>

theorem load_dataset_contract:
  "(\<not> path_exists files (Path pl a) \<longrightarrow>
      load_dataset pl pd files a = Inl (FileNotFoundError (Path pl a))) \<and>
   (path_exists files (Path pl a) \<and> path_suffix pl (Path pl a) \<noteq> ''.csv''
      \<and> path_suffix pl (Path pl a) \<noteq> ''.xlsx'' \<longrightarrow>
      load_dataset pl pd files a = Inl (ValueError unsupported_format)) \<and>
   (path_exists files (Path pl a) \<and> path_suffix pl (Path pl a) = ''.csv'' \<longrightarrow>
      load_dataset pl pd files a = read_csv pd files (Path pl a)) \<and>
   (path_exists files (Path pl a) \<and> path_suffix pl (Path pl a) = ''.xlsx'' \<longrightarrow>
      load_dataset pl pd files a = read_excel pd files (Path pl a))"
  by (simp add: load_dataset_def Let_def)

theorem load_dataset_contract_witness:
  "\<not> path_exists disk (Path posix (Str ''data/missing.csv''))
   \<and> load_dataset posix table_readers disk (Str ''data/missing.csv'')
       = Inl (FileNotFoundError ''data/missing.csv'')
   \<and> path_exists disk (Path posix (Str ''data/compras.txt''))
   \<and> path_suffix posix (Path posix (Str ''data/compras.txt'')) \<noteq> ''.csv''
   \<and> path_suffix posix (Path posix (Str ''data/compras.txt'')) \<noteq> ''.xlsx''
   \<and> load_dataset posix table_readers disk (Str ''data/compras.txt'')
       = Inl (ValueError unsupported_format)
   \<and> path_exists disk (Path posix (Str ''data/compras.csv''))
   \<and> path_suffix posix (Path posix (Str ''data/compras.csv'')) = ''.csv''
   \<and> load_dataset posix table_readers disk (Str ''data/compras.csv'') = Inr compras
   \<and> path_exists disk (Path posix (PathObj ''data/compras.xlsx''))
   \<and> path_suffix posix (Path posix (PathObj ''data/compras.xlsx'')) = ''.xlsx''
   \<and> load_dataset posix table_readers disk (PathObj ''data/compras.xlsx'') = Inr compras"
  using load_dataset_contract [of disk posix "Str ''data/missing.csv''" table_readers]
    load_dataset_contract [of disk posix "Str ''data/compras.txt''" table_readers]
    load_dataset_contract [of disk posix "Str ''data/compras.csv''" table_readers]
    load_dataset_contract [of disk posix "PathObj ''data/compras.xlsx''" table_readers]
  by (simp add: path_exists_def disk_def posix_def table_readers_def
      posix_suffix_csv posix_suffix_xlsx posix_suffix_txt)

text \<open>
  C10. The existence check comes before the dispatch on the suffix: a path that does not
  exist gives the not-found error whatever its suffix, and the unsupported-format error
  of \<open>load_dataset\<close> is only ever returned for a path that exists.
\<close>

theorem load_dataset_not_found_first:
  "(\<not> path_exists files (Path pl a) \<longrightarrow>
      load_dataset pl pd files a = Inl (FileNotFoundError (Path pl a))) \<and>
   (load_dataset pl pd files a = Inl (ValueError unsupported_format)
      \<longrightarrow> path_exists files (Path pl a))"
  by (simp add: load_dataset_def Let_def)

theorem load_dataset_not_found_first_witness:
  "\<not> path_exists disk (Path posix (Str ''data/missing.csv''))
   \<and> path_suffix posix (Path posix (Str ''data/missing.csv'')) = ''.csv''
   \<and> load_dataset posix table_readers disk (Str ''data/missing.csv'')
       = Inl (FileNotFoundError ''data/missing.csv'')
   \<and> load_dataset posix table_readers disk (Str ''data/compras.txt'')
       = Inl (ValueError unsupported_format)
   \<and> path_exists disk (Path posix (Str ''data/compras.txt''))"
  using load_dataset_not_found_first [of disk posix "Str ''data/missing.csv''" table_readers]
    load_dataset_not_found_first [of disk posix "Str ''data/compras.txt''" table_readers]
  by (simp add: path_exists_def disk_def posix_def load_dataset_def posix_suffix_txt
      posix_suffix_missing)

section \<open>Properties of \<open>identify_categorical_features\<close>\<close>

lemma filter_name_distinct:
  "distinct (map col_name cols) \<Longrightarrow> c \<in> set cols \<Longrightarrow>
     filter (\<lambda>c'. col_name c' = col_name c) cols = [c]"
proof (induction cols)
  case Nil
  then show ?case by simp
next
  case (Cons a cols)
  show ?case
  proof (cases "a = c")
    case True
    with Cons.prems have "col_name c \<notin> col_name ` set cols" by simp
    then have "\<forall>c'\<in>set cols. col_name c' \<noteq> col_name c" by (metis imageI)
    then have "filter (\<lambda>c'. col_name c' = col_name c) cols = []" by (simp add: filter_empty_conv)
    with True show ?thesis by simp
  next
    case False
    with Cons.prems have "c \<in> set cols" "col_name a \<noteq> col_name c" by auto
    with Cons show ?thesis by simp
  qed
qed

lemma getitem_dtype_distinct:
  "distinct (map col_name (df_columns df)) \<Longrightarrow> c \<in> set (df_columns df) \<Longrightarrow>
     getitem_dtype df (col_name c) = Inr (col_dtype c)"
  by (simp add: getitem_dtype_def filter_name_distinct)

lemma dtype_str_object_or_category:
  "(dtype_str d = ''object'' \<or> dtype_str d = ''category'') = (d = Object \<or> d = Category)"
  by (cases d) simp_all

lemma categorical_cols_of_filter:
  "distinct (map col_name (df_columns df)) \<Longrightarrow> set cs \<subseteq> set (df_columns df) \<Longrightarrow>
     categorical_cols_of df (map col_name cs)
       = Inr (map col_name (filter (\<lambda>c. col_dtype c = Object \<or> col_dtype c = Category) cs))"
  by (induction cs) (simp_all add: getitem_dtype_distinct dtype_str_object_or_category)

text \<open>
  What the comprehension computes on a table whose column names are distinct: the names
  of the columns of dtype \<open>object\<close> or \<open>category\<close>, in the order of the table. A name
  that two columns carry makes it raise \<open>AttributeError\<close>.
\<close>

lemma identify_categorical_features_distinct:
  "distinct (map col_name (df_columns x_train)) \<Longrightarrow>
     identify_categorical_features x_train
       = Inr (map col_name
                (filter (\<lambda>c. col_dtype c = Object \<or> col_dtype c = Category) (df_columns x_train)))"
  by (simp add: identify_categorical_features_def categorical_cols_of_filter)

lemma identify_categorical_features_repeated_name:
  "identify_categorical_features
     \<lparr> df_index = [0],
       df_columns = [\<lparr> col_name = ''Valor'', col_dtype = Int64, col_values = [I 1] \<rparr>,
                     \<lparr> col_name = ''Valor'', col_dtype = Object, col_values = [S ''um''] \<rparr>] \<rparr>
     = (Inl (AttributeError ''dtype'') :: string error + string list)"
  by (simp add: identify_categorical_features_def getitem_dtype_def)

lemma identify_categorical_features_compras:
  "identify_categorical_features compras
     = (Inr [''Fornecedor'', ''Categoria''] :: string error + string list)"
  by (simp add: identify_categorical_features_def compras_def getitem_dtype_def)

text \<open>
  C7. The claim is that \<open>identify_categorical_features\<close> returns exactly the names of
  the text and category-typed columns of a training table. The comprehension keeps the
  columns whose dtype is \<open>object\<close> or \<open>category\<close> and no other: a text column that
  pandas holds in a string dtype is left out. On the purchases whose supplier column
  has the dtype \<open>str\<close>, the text and category-typed columns are \<open>Fornecedor\<close> and
  \<open>Categoria\<close>, and the function returns \<open>Categoria\<close> alone.
\<close>

theorem identify_categorical_features_misses_text:
  "distinct (map col_name (df_columns compras_str))
   \<and> {col_name c | c. c \<in> set (df_columns compras_str) \<and> text_or_category_dtype (col_dtype c)}
       = {''Fornecedor'', ''Categoria''}
   \<and> {col_name c | c. c \<in> set (df_columns compras_str) \<and> numeric_dtype (col_dtype c)}
       = {''Valor'', ''Preco''}
   \<and> identify_categorical_features compras_str
       = (Inr [''Categoria''] :: string error + string list)"
proof -
  have im: "{col_name c | c. c \<in> set cols \<and> P (col_dtype c)}
       = set (map col_name (filter (\<lambda>c. P (col_dtype c)) cols))"
    for cols :: "cell column list" and P
    by auto
  have "{col_name c | c. c \<in> set (df_columns compras_str) \<and> text_or_category_dtype (col_dtype c)}
       = {''Fornecedor'', ''Categoria''}"
    unfolding im by (simp add: compras_str_def text_or_category_dtype_def text_dtype_def)
  moreover have "{col_name c | c. c \<in> set (df_columns compras_str) \<and> numeric_dtype (col_dtype c)}
       = {''Valor'', ''Preco''}"
    unfolding im by (simp add: compras_str_def numeric_dtype_def)
  moreover have "identify_categorical_features compras_str
       = (Inr [''Categoria''] :: string error + string list)"
    by (simp add: identify_categorical_features_def compras_str_def getitem_dtype_def)
  moreover have "distinct (map col_name (df_columns compras_str))"
    by (simp add: compras_str_def)
  ultimately show ?thesis by blast
qed

section \<open>Properties of the persistence functions\<close>

lemma load_data_splits_split_dir:
  "load_data_splits pl pk script_dir files dir_root tag =
     (case check_required pl files (split_dir pl script_dir dir_root tag) required_files of
        Some e \<Rightarrow> (Inl e, [])
      | None \<Rightarrow> load_required pl pk files (split_dir pl script_dir dir_root tag) required_files Map.empty [])"
  unfolding load_data_splits_def split_dir_def Let_def
  by (cases dir_root; cases tag) (simp_all cong: option.case_cong)

lemma save_splits_split_dir:
  "save_splits pl pk script_dir files splits_data dir_root tag =
     (case mkdir pl files (split_dir pl script_dir dir_root tag) of
        Inl e \<Rightarrow> (Inl e, files)
      | Inr files1 \<Rightarrow> save_items pl pk (split_dir pl script_dir dir_root tag) splits_data files1)"
  unfolding save_splits_def split_dir_def Let_def
  by (cases dir_root; cases tag) (simp_all cong: sum.case_cong)

lemma check_required_find:
  "check_required pl files d fs =
     map_option (\<lambda>f. FileNotFoundError (path_div pl d f))
       (find (\<lambda>f. \<not> path_exists files (path_div pl d f)) fs)"
  by (induction fs) (simp_all add: Let_def)

text \<open>
  C5. When at least one of the seven expected files is absent from the resolved split
  directory, \<open>load_data_splits\<close> raises the file-not-found error that names the first
  missing file in the order of \<open>required_files\<close>; nothing has been unpickled by then
  (the list of unpickled paths is empty) and no mapping is returned.
\<close>

theorem load_data_splits_fail_fast:
  assumes "f \<in> set required_files"
    and "\<not> path_exists files (path_div pl (split_dir pl script_dir dir_root tag) f)"
  shows "\<exists>f0. first_missing pl files (split_dir pl script_dir dir_root tag) = Some f0
     \<and> load_data_splits pl pk script_dir files dir_root tag
         = (Inl (FileNotFoundError (path_div pl (split_dir pl script_dir dir_root tag) f0)), [])"
proof -
  let ?d = "split_dir pl script_dir dir_root tag"
  from assms have "find (\<lambda>f. \<not> path_exists files (path_div pl ?d f)) required_files \<noteq> None"
    by (auto simp: find_None_iff)
  then obtain f0 where f0: "first_missing pl files ?d = Some f0"
    by (auto simp: first_missing_def)
  then have "check_required pl files ?d required_files = Some (FileNotFoundError (path_div pl ?d f0))"
    by (simp add: check_required_find first_missing_def)
  with f0 show ?thesis by (simp add: load_data_splits_split_dir)
qed

theorem load_data_splits_fail_fast_witness:
  "''y_test.pkl'' \<in> set required_files
   \<and> \<not> path_exists torn_disk
         (path_div posix (split_dir posix ''/repo/scripts'' (Str ''outputs/splits'') (Some 1))
            ''y_test.pkl'')
   \<and> first_missing posix torn_disk
         (split_dir posix ''/repo/scripts'' (Str ''outputs/splits'') (Some 1)) = Some ''y_val.pkl''
   \<and> load_data_splits posix obj_pickle ''/repo/scripts'' torn_disk (Str ''outputs/splits'') (Some 1)
       = (Inl (FileNotFoundError ''/repo/outputs/splits/split_1/y_val.pkl''), [])"
proof -
  have d: "split_dir posix ''/repo/scripts'' (Str ''outputs/splits'') (Some 1)
      = ''/repo/outputs/splits/split_1''"
    by (simp add: split_dir_def posix_def posix_parent_def posix_parents_def str_int_def
        str_nat.simps digit_char_def)
  have m: "''y_test.pkl'' \<in> set required_files"
    by (simp add: required_files_def)
  have a: "\<not> path_exists torn_disk
         (path_div posix (split_dir posix ''/repo/scripts'' (Str ''outputs/splits'') (Some 1))
            ''y_test.pkl'')"
    unfolding d by (simp add: path_exists_def torn_disk_def posix_def)
  have f: "first_missing posix torn_disk
         (split_dir posix ''/repo/scripts'' (Str ''outputs/splits'') (Some 1)) = Some ''y_val.pkl''"
    unfolding d by (simp add: first_missing_def required_files_def path_exists_def torn_disk_def posix_def)
  have pd: "path_div posix p f = p @ ''/'' @ f" for p f
    by (simp add: posix_def)
  from load_data_splits_fail_fast [OF m a, of obj_pickle] f m a show ?thesis
    unfolding d by (simp add: pd)
qed

lemma fold_dir_out:
  "p \<notin> set qs \<Longrightarrow> fold (\<lambda>q fs. fs(q \<mapsto> Dir)) qs files p = files p"
  by (induction qs arbitrary: files) simp_all

lemma fold_dir_in:
  "q \<in> set qs \<Longrightarrow> fold (\<lambda>q fs. fs(q \<mapsto> Dir)) qs files q = Some Dir"
proof (induction qs arbitrary: files)
  case Nil
  then show ?case by simp
next
  case (Cons a qs)
  show ?case
  proof (cases "q \<in> set qs")
    case True
    from Cons.IH [OF True, of "files(a \<mapsto> Dir)"] show ?thesis
      by (simp only: fold_simps comp_apply)
  next
    case False
    with Cons.prems have "q = a" by simp
    with False have "fold (\<lambda>q fs. fs(q \<mapsto> Dir)) qs (files(a \<mapsto> Dir)) q = (files(a \<mapsto> Dir)) q"
      by (intro fold_dir_out)
    with \<open>q = a\<close> show ?thesis by (simp only: fold_simps comp_apply fun_upd_same)
  qed
qed

lemma mkdir_creates:
  assumes "\<forall>q \<in> set (d # path_parents pl d). \<not> is_file files q"
  shows "mkdir pl files d = Inr (fold (\<lambda>q fs. fs(q \<mapsto> Dir)) (d # path_parents pl d) files)"
  using assms by (simp add: mkdir_def list_ex_iff)

lemma open_wb_creates:
  assumes "\<forall>q \<in> set (path_parents pl p). files q = Some Dir" and "files p \<noteq> Some Dir"
  shows "open_wb pl files p = Inr (files(p \<mapsto> File []))"
  using assms by (simp add: open_wb_def list_ex_iff is_file_def)

lemma save_items_written:
  assumes "distinct (map (\<lambda>x. path_div pl d (fst x @ ''.pkl'')) items)"
    and "\<forall>x \<in> set items. pickles_back pk (snd x)"
    and "\<forall>x \<in> set items. files (path_div pl d (fst x @ ''.pkl'')) \<noteq> Some Dir"
    and "\<forall>x \<in> set items. path_parents pl (path_div pl d (fst x @ ''.pkl'')) = d # ps"
    and "\<forall>q \<in> set (d # ps). files q = Some Dir"
    and "\<forall>x \<in> set items. path_div pl d (fst x @ ''.pkl'') \<notin> set (d # ps)"
  shows "\<exists>files'. save_items pl pk d items files = (Inr (), files')
     \<and> (\<forall>x \<in> set items. \<exists>b. dump pk (snd x) = Inr b
            \<and> files' (path_div pl d (fst x @ ''.pkl'')) = Some (File b)
            \<and> load pk b = Inr (snd x))
     \<and> (\<forall>p. p \<notin> (\<lambda>x. path_div pl d (fst x @ ''.pkl'')) ` set items \<longrightarrow> files' p = files p)"
  using assms
proof (induction items arbitrary: files)
  case Nil
  then show ?case by simp
next
  case (Cons item items)
  let ?P = "\<lambda>x. path_div pl d (fst x @ ''.pkl'')"
  obtain n v where item: "item = (n, v)" by (cases item)
  have "pickles_back pk v" using Cons.prems(2) item by simp
  then obtain b where b: "dump pk v = Inr b" "load pk b = Inr v"
    by (auto simp: pickles_back_def split: sum.splits)
  have nodir: "files (?P item) \<noteq> Some Dir" using Cons.prems(3) by simp
  have par: "path_parents pl (?P item) = d # ps" using Cons.prems(4) by simp
  have "\<forall>q \<in> set (path_parents pl (?P item)). files q = Some Dir"
    unfolding par by (rule Cons.prems(5))
  then have ow: "open_wb pl files (?P item) = Inr (files(?P item \<mapsto> File []))"
    using nodir by (rule open_wb_creates)
  let ?files1 = "files(?P item \<mapsto> File b)"
  have out: "?P item \<notin> set (d # ps)" using Cons.prems(6) by simp
  have fresh: "?P item \<notin> ?P ` set items"
    using Cons.prems(1) by simp
  have a1: "distinct (map ?P items)" using Cons.prems(1) by simp
  have a2: "\<forall>x \<in> set items. pickles_back pk (snd x)" using Cons.prems(2) by simp
  have a3: "\<forall>x \<in> set items. ?files1 (?P x) \<noteq> Some Dir"
  proof
    fix x assume "x \<in> set items"
    with Cons.prems(3) have "files (?P x) \<noteq> Some Dir" by simp
    then show "?files1 (?P x) \<noteq> Some Dir" by (simp add: fun_upd_apply)
  qed
  have a4: "\<forall>x \<in> set items. path_parents pl (?P x) = d # ps" using Cons.prems(4) by simp
  have a5: "\<forall>q \<in> set (d # ps). ?files1 q = Some Dir"
  proof
    fix q assume q: "q \<in> set (d # ps)"
    with out have "q \<noteq> ?P item" by blast
    moreover from Cons.prems(5) q have "files q = Some Dir" by blast
    ultimately show "?files1 q = Some Dir" by (simp add: fun_upd_apply)
  qed
  have a6: "\<forall>x \<in> set items. ?P x \<notin> set (d # ps)" using Cons.prems(6) by simp
  from Cons.IH [OF a1 a2 a3 a4 a5 a6]
  obtain files' where f1: "save_items pl pk d items ?files1 = (Inr (), files')"
    and f2: "\<forall>x \<in> set items. \<exists>b. dump pk (snd x) = Inr b \<and> files' (?P x) = Some (File b)
               \<and> load pk b = Inr (snd x)"
    and f3: "\<forall>p. p \<notin> ?P ` set items \<longrightarrow> files' p = ?files1 p"
    by blast
  have s: "save_items pl pk d (item # items) files = (Inr (), files')"
    using ow b(1) f1 by (simp add: item Let_def)
  from f3 fresh have "files' (?P item) = Some (File b)" by simp
  with b f2 have w: "\<forall>x \<in> set (item # items). \<exists>b. dump pk (snd x) = Inr b
      \<and> files' (?P x) = Some (File b) \<and> load pk b = Inr (snd x)"
    by (simp add: item)
  have u: "\<forall>p. p \<notin> ?P ` set (item # items) \<longrightarrow> files' p = files p"
    using f3 by (simp add: fun_upd_apply)
  from s w u show ?case by blast
qed

lemma load_required_all:
  assumes "\<forall>n \<in> set ns. str_replace (n @ ''.pkl'') ''.pkl'' '''' = n"
    and "\<forall>n \<in> set ns. \<exists>b v. files (path_div pl d (n @ ''.pkl'')) = Some (File b)
            \<and> load pk b = Inr v \<and> m n = Some v"
  shows "load_required pl pk files d (map (\<lambda>n. n @ ''.pkl'') ns) acc seen
     = (Inr (\<lambda>k. if k \<in> set ns then m k else acc k),
        seen @ map (\<lambda>n. path_div pl d (n @ ''.pkl'')) ns)"
  using assms
proof (induction ns arbitrary: acc seen)
  case Nil
  then show ?case by simp
next
  case (Cons n ns)
  from Cons.prems obtain b v where b: "files (path_div pl d (n @ ''.pkl'')) = Some (File b)"
    "load pk b = Inr v" "m n = Some v" by auto
  have r: "str_replace (n @ ''.pkl'') ''.pkl'' '''' = n" using Cons.prems by simp
  have "load_required pl pk files d (map (\<lambda>n. n @ ''.pkl'') (n # ns)) acc seen
      = load_required pl pk files d (map (\<lambda>n. n @ ''.pkl'') ns) (acc(n \<mapsto> v))
          (seen @ [path_div pl d (n @ ''.pkl'')])"
    using b r by (simp add: Let_def open_rb_def)
  also have "\<dots> = (Inr (\<lambda>k. if k \<in> set ns then m k else (acc(n \<mapsto> v)) k),
        (seen @ [path_div pl d (n @ ''.pkl'')]) @ map (\<lambda>n. path_div pl d (n @ ''.pkl'')) ns)"
    using Cons.prems by (intro Cons.IH) auto
  also have "(\<lambda>k. if k \<in> set ns then m k else (acc(n \<mapsto> v)) k)
      = (\<lambda>k. if k \<in> set (n # ns) then m k else acc k)"
    using b(3) by auto
  finally show ?case by simp
qed

lemma required_files_names: "required_files = map (\<lambda>n. n @ ''.pkl'') bundle_names"
  by (simp add: required_files_def bundle_names_def)

lemma bundle_names_replace:
  "\<forall>n \<in> set bundle_names. str_replace (n @ ''.pkl'') ''.pkl'' '''' = n"
  by (simp add: bundle_names_def str_replace_def)

text \<open>
  C2. For a bundle of exactly the seven named items, any directory root and any optional
  integer tag: \<open>save_splits\<close> succeeds and leaves, for each item, the file
  \<open><name>.pkl\<close> of the split directory with what \<open>pickle.dump\<close> gives for the item;
  and \<open>load_data_splits\<close> from the same root and tag on the file system it leaves
  returns a mapping equal to the bundle, each name bound to the very object that was
  written, its type included. This holds when \<open>pickle\<close> gives back every object of the
  bundle; the seven files are different paths of the split directory, none of them the
  directory or one of its ancestors; no regular file stands where the directory or an
  ancestor goes, and no directory where a file goes.
\<close>

theorem save_load_roundtrip:
  assumes keys: "distinct (map fst bundle)" "set (map fst bundle) = set bundle_names"
    and pk: "\<forall>v \<in> snd ` set bundle. pickles_back pk v"
    and parents: "\<forall>f \<in> set required_files.
                   path_parents pl (path_div pl (split_dir pl script_dir dir_root tag) f)
                     = split_dir pl script_dir dir_root tag
                       # path_parents pl (split_dir pl script_dir dir_root tag)"
    and paths: "distinct (map (path_div pl (split_dir pl script_dir dir_root tag)) required_files)"
    and apart: "\<forall>f \<in> set required_files.
                   path_div pl (split_dir pl script_dir dir_root tag) f
                     \<notin> set (split_dir pl script_dir dir_root tag
                            # path_parents pl (split_dir pl script_dir dir_root tag))"
    and nofile: "\<forall>q \<in> set (split_dir pl script_dir dir_root tag
                             # path_parents pl (split_dir pl script_dir dir_root tag)).
                   \<not> is_file files q"
    and nodir: "\<forall>f \<in> set required_files.
                   files (path_div pl (split_dir pl script_dir dir_root tag) f) \<noteq> Some Dir"
  shows "\<exists>files' unpickled.
           save_splits pl pk script_dir files bundle dir_root tag = (Inr (), files')
         \<and> (\<forall>x \<in> set bundle. \<exists>b. dump pk (snd x) = Inr b
               \<and> files' (path_div pl (split_dir pl script_dir dir_root tag) (fst x @ ''.pkl''))
                    = Some (File b))
         \<and> load_data_splits pl pk script_dir files' dir_root tag = (Inr (map_of bundle), unpickled)"
proof -
  let ?d = "split_dir pl script_dir dir_root tag"
  let ?P = "\<lambda>n. path_div pl ?d (n @ ''.pkl'')"
  let ?made = "fold (\<lambda>q fs. fs(q \<mapsto> Dir)) (?d # path_parents pl ?d) files"
  have mk: "mkdir pl files ?d = Inr ?made"
    using nofile by (rule mkdir_creates)
  have dm: "map (path_div pl ?d) required_files = map ?P bundle_names"
    unfolding required_files_names by (simp add: comp_def)
  from paths have dP: "distinct (map ?P bundle_names)"
    unfolding dm .
  from dP have injP: "inj_on ?P (set bundle_names)"
    by (simp only: distinct_map)
  have injB: "inj_on ?P (set (map fst bundle))"
    unfolding keys(2) by (rule injP)
  have "distinct (map ?P (map fst bundle))"
    by (rule iffD2 [OF distinct_map], rule conjI [OF keys(1) injB])
  then have d1: "distinct (map (\<lambda>x. ?P (fst x)) bundle)" by (simp add: comp_def)
  have d2: "\<forall>x \<in> set bundle. pickles_back pk (snd x)" using pk by auto
  have nm: "fst x \<in> set bundle_names" if "x \<in> set bundle" for x
  proof -
    from that have "fst x \<in> set (map fst bundle)" by simp
    then show ?thesis by (simp only: keys(2))
  qed
  have rq: "fst x @ ''.pkl'' \<in> set required_files" if "x \<in> set bundle" for x
    using nm [OF that] by (simp add: required_files_names)
  have d6: "\<forall>x \<in> set bundle. ?P (fst x) \<notin> set (?d # path_parents pl ?d)"
  proof
    fix x assume "x \<in> set bundle"
    then have "fst x @ ''.pkl'' \<in> set required_files" by (rule rq)
    with apart show "?P (fst x) \<notin> set (?d # path_parents pl ?d)" by blast
  qed
  have d3: "\<forall>x \<in> set bundle. ?made (?P (fst x)) \<noteq> Some Dir"
  proof
    fix x assume x: "x \<in> set bundle"
    with d6 have "?P (fst x) \<notin> set (?d # path_parents pl ?d)" by blast
    then have "?made (?P (fst x)) = files (?P (fst x))" by (rule fold_dir_out)
    moreover from nodir rq [OF x] have "files (?P (fst x)) \<noteq> Some Dir" by blast
    ultimately show "?made (?P (fst x)) \<noteq> Some Dir" by simp
  qed
  have d4: "\<forall>x \<in> set bundle. path_parents pl (?P (fst x)) = ?d # path_parents pl ?d"
  proof
    fix x assume "x \<in> set bundle"
    then have "fst x @ ''.pkl'' \<in> set required_files" by (rule rq)
    with parents show "path_parents pl (?P (fst x)) = ?d # path_parents pl ?d" by blast
  qed
  have d5: "\<forall>q \<in> set (?d # path_parents pl ?d). ?made q = Some Dir"
  proof
    fix q assume "q \<in> set (?d # path_parents pl ?d)"
    then show "?made q = Some Dir" by (rule fold_dir_in)
  qed
  from save_items_written [OF d1 d2 d3 d4 d5 d6]
  obtain files' where f': "save_items pl pk ?d bundle ?made = (Inr (), files')"
    "\<forall>x \<in> set bundle. \<exists>b. dump pk (snd x) = Inr b \<and> files' (?P (fst x)) = Some (File b)
        \<and> load pk b = Inr (snd x)"
    by blast
  have sv: "save_splits pl pk script_dir files bundle dir_root tag = (Inr (), files')"
    using mk f'(1) by (simp add: save_splits_split_dir)
  have wr: "\<forall>x \<in> set bundle. \<exists>b. dump pk (snd x) = Inr b \<and> files' (?P (fst x)) = Some (File b)"
    using f'(2) by blast
  have ent: "\<forall>n \<in> set bundle_names. \<exists>b v. files' (?P n) = Some (File b)
            \<and> load pk b = Inr v \<and> map_of bundle n = Some v"
  proof
    fix n assume "n \<in> set bundle_names"
    then have "n \<in> set (map fst bundle)" by (simp only: keys(2))
    then obtain v where nv: "(n, v) \<in> set bundle" by auto
    with keys(1) have "map_of bundle n = Some v" by simp
    moreover from f'(2) nv have "\<exists>b. files' (?P n) = Some (File b) \<and> load pk b = Inr v"
      by force
    ultimately show "\<exists>b v. files' (?P n) = Some (File b) \<and> load pk b = Inr v \<and> map_of bundle n = Some v"
      by blast
  qed
  then have "\<forall>f \<in> set required_files. path_exists files' (path_div pl ?d f)"
    by (auto simp: required_files_names path_exists_def)
  then have ck: "check_required pl files' ?d required_files = None"
    by (simp add: check_required_find find_None_iff)
  have "load_required pl pk files' ?d required_files Map.empty []
      = (Inr (\<lambda>k. if k \<in> set bundle_names then map_of bundle k else None),
         [] @ map ?P bundle_names)"
    unfolding required_files_names
    by (rule load_required_all [OF bundle_names_replace ent])
  moreover have "(\<lambda>k. if k \<in> set bundle_names then map_of bundle k else None) = map_of bundle"
  proof
    fix k show "(if k \<in> set bundle_names then map_of bundle k else None) = map_of bundle k"
    proof (cases "k \<in> set bundle_names")
      case True
      then show ?thesis by simp
    next
      case False
      then have "k \<notin> set (map fst bundle)" by (simp only: keys(2) not_False_eq_True)
      then have "map_of bundle k = None" by (simp add: map_of_eq_None_iff)
      with False show ?thesis by simp
    qed
  qed
  ultimately have "load_data_splits pl pk script_dir files' dir_root tag
      = (Inr (map_of bundle), map ?P bundle_names)"
    using ck by (simp add: load_data_splits_split_dir)
  with sv wr show ?thesis by blast
qed

theorem save_load_roundtrip_witness:
  "distinct (map fst demo_bundle) \<and> set (map fst demo_bundle) = set bundle_names
   \<and> list_all (pickles_back obj_pickle) (map snd demo_bundle)
   \<and> list_all (\<lambda>f. path_parents posix (path_div posix
           (split_dir posix ''/repo/scripts'' (Str ''outputs/splits'') (Some 1)) f)
         = split_dir posix ''/repo/scripts'' (Str ''outputs/splits'') (Some 1)
           # path_parents posix (split_dir posix ''/repo/scripts'' (Str ''outputs/splits'') (Some 1)))
        required_files
   \<and> distinct (map (path_div posix (split_dir posix ''/repo/scripts'' (Str ''outputs/splits'') (Some 1)))
        required_files)
   \<and> list_all (\<lambda>f. path_div posix
           (split_dir posix ''/repo/scripts'' (Str ''outputs/splits'') (Some 1)) f
         \<notin> set (split_dir posix ''/repo/scripts'' (Str ''outputs/splits'') (Some 1)
           # path_parents posix (split_dir posix ''/repo/scripts'' (Str ''outputs/splits'') (Some 1))))
        required_files
   \<and> list_all (\<lambda>q. \<not> is_file empty_disk q)
        (split_dir posix ''/repo/scripts'' (Str ''outputs/splits'') (Some 1)
           # path_parents posix (split_dir posix ''/repo/scripts'' (Str ''outputs/splits'') (Some 1)))
   \<and> empty_disk (split_dir posix ''/repo/scripts'' (Str ''outputs/splits'') (Some 1)) = None
   \<and> list_all (\<lambda>f. empty_disk (path_div posix
           (split_dir posix ''/repo/scripts'' (Str ''outputs/splits'') (Some 1)) f) = None)
        required_files
   \<and> (\<exists>files' unpickled.
         save_splits posix obj_pickle ''/repo/scripts'' empty_disk demo_bundle
           (Str ''outputs/splits'') (Some 1) = (Inr (), files')
       \<and> list_all (\<lambda>x. files' (path_div posix
               (split_dir posix ''/repo/scripts'' (Str ''outputs/splits'') (Some 1)) (fst x @ ''.pkl''))
             = Some (File [snd x])) demo_bundle
       \<and> load_data_splits posix obj_pickle ''/repo/scripts'' files' (Str ''outputs/splits'') (Some 1)
           = (Inr (map_of demo_bundle), unpickled))"
proof -
  let ?d = "split_dir posix ''/repo/scripts'' (Str ''outputs/splits'') (Some 1)"
  have d: "?d = ''/repo/outputs/splits/split_1''"
    by (simp add: split_dir_def posix_def posix_parent_def posix_parents_def str_int_def
        str_nat.simps digit_char_def)
  have pd: "path_div posix p f = p @ ''/'' @ f" "path_parents posix p = posix_parents p" for p f
    by (simp_all add: posix_def)
  have pp: "posix_parents ''/repo/outputs/splits/split_1''
      = [''/repo/outputs/splits'', ''/repo/outputs'', ''/repo'', ''/'']"
    by (simp add: posix_parents_def)
  have h1: "distinct (map fst demo_bundle)"
    by (simp add: demo_bundle_def)
  have h2: "set (map fst demo_bundle) = set bundle_names"
    by (simp add: demo_bundle_def bundle_names_def)
  have h3: "\<forall>v \<in> snd ` set demo_bundle. pickles_back obj_pickle v"
    by (simp add: demo_bundle_def pickles_back_def obj_pickle_def)
  have h4: "\<forall>f \<in> set required_files. path_parents posix (path_div posix ?d f)
      = ?d # path_parents posix ?d"
    unfolding d pd pp by (simp add: required_files_def posix_parents_def)
  have h5: "distinct (map (path_div posix ?d) required_files)"
    unfolding d by (simp add: required_files_def posix_def)
  have h6: "\<forall>f \<in> set required_files. path_div posix ?d f \<notin> set (?d # path_parents posix ?d)"
    unfolding d pd pp by (simp add: required_files_def)
  have h7: "\<forall>q \<in> set (?d # path_parents posix ?d). \<not> is_file empty_disk q"
    by (simp add: empty_disk_def is_file_def)
  have h8: "\<forall>f \<in> set required_files. empty_disk (path_div posix ?d f) \<noteq> Some Dir"
    unfolding d pd by (simp add: empty_disk_def required_files_def)
  have l3: "list_all (pickles_back obj_pickle) (map snd demo_bundle)"
    using h3 by (simp add: list_all_iff)
  have l4: "list_all (\<lambda>f. path_parents posix (path_div posix ?d f) = ?d # path_parents posix ?d)
      required_files"
    using h4 by (simp only: list_all_iff)
  have l6: "list_all (\<lambda>f. path_div posix ?d f \<notin> set (?d # path_parents posix ?d)) required_files"
    using h6 by (simp only: list_all_iff)
  have l7: "list_all (\<lambda>q. \<not> is_file empty_disk q) (?d # path_parents posix ?d)"
    using h7 by (simp only: list_all_iff)
  have l8: "list_all (\<lambda>f. empty_disk (path_div posix ?d f) = None) required_files"
    unfolding d pd by (simp add: empty_disk_def required_files_def)
  have l9: "empty_disk ?d = None"
    unfolding d by (simp add: empty_disk_def)
  from save_load_roundtrip [OF h1 h2 h3 h4 h5 h6 h7 h8]
  obtain files' unpickled where
    r: "save_splits posix obj_pickle ''/repo/scripts'' empty_disk demo_bundle
           (Str ''outputs/splits'') (Some 1) = (Inr (), files')"
      "\<forall>x \<in> set demo_bundle. \<exists>b. dump obj_pickle (snd x) = Inr b
          \<and> files' (path_div posix ?d (fst x @ ''.pkl'')) = Some (File b)"
      "load_data_splits posix obj_pickle ''/repo/scripts'' files' (Str ''outputs/splits'') (Some 1)
           = (Inr (map_of demo_bundle), unpickled)"
    by blast
  from r(2) have "\<forall>x \<in> set demo_bundle.
      files' (path_div posix ?d (fst x @ ''.pkl'')) = Some (File [snd x])"
    by (auto simp: obj_pickle_def)
  then have w: "list_all (\<lambda>x. files' (path_div posix ?d (fst x @ ''.pkl''))
      = Some (File [snd x])) demo_bundle"
    by (simp only: list_all_iff)
  from r(1) w r(3) h1 h2 l3 l4 h5 l6 l7 l9 l8 show ?thesis
    by blast
qed

text \<open>
  Where the path \<open>/repo/outputs\<close> is a regular file, \<open>save_splits\<close> stops at \<open>mkdir\<close>
  and writes nothing.
\<close>

lemma save_splits_blocked:
  "save_splits posix obj_pickle ''/repo/scripts'' blocked_disk demo_bundle
     (Str ''outputs/splits'') (Some 1)
     = (Inl (NotADirectoryError ''/repo/outputs/splits/split_1''), blocked_disk)"
proof -
  have d: "split_dir posix ''/repo/scripts'' (Str ''outputs/splits'') (Some 1)
      = ''/repo/outputs/splits/split_1''"
    by (simp add: split_dir_def posix_def posix_parent_def posix_parents_def str_int_def
        str_nat.simps digit_char_def)
  have "mkdir posix blocked_disk ''/repo/outputs/splits/split_1''
      = Inl (NotADirectoryError ''/repo/outputs/splits/split_1'')"
    by (simp add: mkdir_def posix_def posix_parents_def blocked_disk_def is_file_def)
  then show ?thesis by (simp add: save_splits_split_dir d)
qed

section \<open>Properties of the float rounding\<close>

lemma pow2_pos: "0 < pow2 e"
  by (simp add: pow2_def)

lemma round_half_even_nonneg: "0 \<le> x \<Longrightarrow> 0 \<le> round_half_even x"
  by (auto simp: round_half_even_def Let_def)

lemma fl_nonneg: "0 \<le> x \<Longrightarrow> 0 \<le> fl x"
proof (cases "x = 0")
  case True
  then show ?thesis by (simp add: fl_def)
next
  case False
  assume "0 \<le> x"
  with False have x: "0 < x" by simp
  let ?e = "max (floor_log2 \<bar>x\<bar> - 52) (- 1074)"
  have "0 \<le> \<bar>x\<bar> / pow2 ?e"
    using pow2_pos [of ?e] by simp
  then have "0 \<le> round_half_even (\<bar>x\<bar> / pow2 ?e)"
    by (rule round_half_even_nonneg)
  then have "0 \<le> of_int (round_half_even (\<bar>x\<bar> / pow2 ?e)) * pow2 ?e"
    using pow2_pos [of ?e] by simp
  with x False show ?thesis by (simp add: fl_def Let_def)
qed


text \<open>
  The doubles of the examples: \<open>0.2\<close>, \<open>0.1\<close>, \<open>1 - 0.2\<close>, \<open>0.2 / 0.8 = 0.25\<close> and
  \<open>0.1 / 0.8 = 0.125\<close>.
\<close>

lemma fl_fifth: "fl (1 / 5) = 3602879701896397 / 18014398509481984"
  by code_simp

lemma fl_tenth: "fl (1 / 10) = 3602879701896397 / 36028797018963968"
  by code_simp

lemma fl_one_minus_fifth: "fl (1 - fl (1 / 5)) = 3602879701896397 / 4503599627370496"
  unfolding fl_fifth by code_simp

lemma fl_fifth_by_four_fifths: "fl (fl (1 / 5) / fl (1 - fl (1 / 5))) = 1 / 4"
  unfolding fl_one_minus_fifth unfolding fl_fifth by code_simp

lemma fl_tenth_by_four_fifths: "fl (fl (1 / 10) / fl (1 - fl (1 / 5))) = 1 / 8"
  unfolding fl_one_minus_fifth unfolding fl_tenth by code_simp

lemma n_test_of_int: "0 < ts \<Longrightarrow> int (n_test_of ts n) = \<lceil>fl (ts * of_nat n)\<rceil>"
proof -
  assume "0 < ts"
  then have "0 \<le> ts * of_nat n" by simp
  then have "0 \<le> fl (ts * of_nat n)" by (rule fl_nonneg)
  then have "0 \<le> \<lceil>fl (ts * of_nat n)\<rceil>" by (simp add: ceiling_le_iff le_ceiling_iff)
  then show ?thesis by (simp add: n_test_of_def)
qed

section \<open>Properties of the reference splitter\<close>

subsection \<open>Rows of a selection\<close>

lemma length_rows: "length (rows df) = nrows df"
  by (simp add: rows_def)

lemma map_fst_rows: "map fst (rows df) = df_index df"
proof -
  have "map fst (rows df) = map (\<lambda>i. df_index df ! i) [0..<length (df_index df)]"
    by (simp add: rows_def nrows_def row_at_def comp_def)
  then show ?thesis by (simp add: map_nth)
qed

lemma length_label_rows: "length (label_rows df) = nrows df"
  by (simp add: label_rows_def length_rows)

lemma nrows_iloc: "nrows (iloc df ps) = length ps"
  by (simp add: nrows_def iloc_def)

lemma df_index_iloc: "df_index (iloc df ps) = map (\<lambda>i. df_index df ! i) ps"
  by (simp add: iloc_def)

lemma row_at_iloc: "j < length ps \<Longrightarrow> row_at (iloc df ps) j = row_at df (ps ! j)"
  by (simp add: row_at_def iloc_def comp_def)

lemma rows_iloc: "rows (iloc df ps) = map (row_at df) ps"
proof -
  have "rows (iloc df ps) = map (\<lambda>j. row_at df (ps ! j)) [0..<length ps]"
    by (simp add: rows_def nrows_iloc row_at_iloc)
  also have "\<dots> = map (row_at df) (map (\<lambda>j. ps ! j) [0..<length ps])"
    by (simp add: comp_def)
  finally show ?thesis by (simp add: map_nth)
qed

lemma label_rows_nth: "i < nrows df \<Longrightarrow> label_rows df ! i = snd (row_at df i)"
  by (simp add: label_rows_def rows_def)

lemma label_rows_iloc:
  "\<forall>i \<in> set ps. i < nrows df \<Longrightarrow> label_rows (iloc df ps) = map (\<lambda>i. label_rows df ! i) ps"
  by (simp add: label_rows_def [of "iloc df ps"] rows_iloc label_rows_nth)

lemma mset_rows_iloc:
  assumes "mset train + mset test = mset [0..<nrows df]"
  shows "mset (rows (iloc df train)) + mset (rows (iloc df test)) = mset (rows df)"
proof -
  have "mset (rows (iloc df train)) + mset (rows (iloc df test))
      = image_mset (row_at df) (mset train + mset test)"
    by (simp add: rows_iloc)
  also have "\<dots> = image_mset (row_at df) (mset [0..<nrows df])"
    by (simp only: assms)
  finally show ?thesis by (simp add: rows_def)
qed

lemma pick_mset: "mset (fst (pick key q as)) + mset (snd (pick key q as)) = mset as"
  by (induction as arbitrary: q) (simp_all add: case_prod_unfold)

lemma pick_train_count:
  "length (filter (\<lambda>a. key a = k) (fst (pick key q as)))
     = min (q k) (length (filter (\<lambda>a. key a = k) as))"
  by (induction as arbitrary: q) (auto simp: case_prod_unfold)

lemma pick_length: "length (fst (pick key q as)) + length (snd (pick key q as)) = length as"
  by (induction as arbitrary: q) (simp_all add: case_prod_unfold)

lemma pick_test_count:
  "length (filter (\<lambda>a. key a = k) (snd (pick key q as)))
     = length (filter (\<lambda>a. key a = k) as) - min (q k) (length (filter (\<lambda>a. key a = k) as))"
  by (induction as arbitrary: q) (auto simp: case_prod_unfold)

subsection \<open>Shares of the classes\<close>

lemma alloc_keys: "map fst (alloc d n p kcs) = map fst kcs"
  by (induction d n p kcs rule: alloc.induct) simp_all

lemma alloc_sum:
  "sum_list (map snd (alloc d n p kcs))
     = ((p + sum_list (map snd kcs)) * d) div n - (p * d) div n"
proof (induction d n p kcs rule: alloc.induct)
  case (1 d n p)
  then show ?case by simp
next
  case (2 d n p k c kcs)
  let ?s = "sum_list (map snd kcs)"
  have a: "(p * d) div n \<le> ((p + c) * d) div n"
    by (intro div_le_mono mult_le_mono1) simp
  have b: "((p + c) * d) div n \<le> ((p + c + ?s) * d) div n"
    by (intro div_le_mono mult_le_mono1) simp
  show ?case using 2 a b by (simp add: add.assoc)
qed

lemma alloc_entry:
  "(k, q) \<in> set (alloc d n p kcs) \<Longrightarrow>
     \<exists>p' c. (k, c) \<in> set kcs \<and> q = ((p' + c) * d) div n - (p' * d) div n"
  by (induction d n p kcs rule: alloc.induct) auto

lemma share_le:
  assumes "0 < n" "d \<le> n"
  shows "((p + c) * d) div n - (p * d) div n \<le> (c::nat)"
proof -
  have "(p + c) * d \<le> p * d + c * n"
    using assms by (simp add: add_mult_distrib)
  then have "((p + c) * d) div n \<le> (p * d + c * n) div n"
    by (rule div_le_mono)
  also have "\<dots> = (p * d) div n + c"
    using assms by simp
  finally show ?thesis by simp
qed

lemma share_close:
  assumes "0 < n"
  shows "\<bar>int (((p + c) * d) div n - (p * d) div n) * int n - int c * int d\<bar> < int n"
proof -
  let ?A = "(p + c) * d" and ?B = "p * d"
  have le: "?B div n \<le> ?A div n"
    by (intro div_le_mono mult_le_mono1) simp
  have A: "int ?A = int (?A div n) * int n + int (?A mod n)"
    by (metis div_mult_mod_eq of_nat_add of_nat_mult)
  have B: "int ?B = int (?B div n) * int n + int (?B mod n)"
    by (metis div_mult_mod_eq of_nat_add of_nat_mult)
  have AB: "int ?A = int ?B + int c * int d"
    by (simp add: add_mult_distrib)
  have q: "int (?A div n - ?B div n) * int n = int (?A div n) * int n - int (?B div n) * int n"
    using le by (simp add: of_nat_diff left_diff_distrib)
  have r: "int (?A mod n) < int n" "int (?B mod n) < int n"
    using assms by simp_all
  have r0: "0 \<le> int (?A mod n)" "0 \<le> int (?B mod n)"
    by simp_all
  from A B AB q r r0 show ?thesis by linarith
qed

lemma map_of_lookup_keys:
  "distinct (map fst al) \<Longrightarrow>
     map (\<lambda>k. case map_of al k of Some q \<Rightarrow> q | None \<Rightarrow> (0::nat)) (map fst al) = map snd al"
proof (induction al)
  case Nil
  then show ?case by simp
next
  case (Cons a al)
  obtain k v where a: "a = (k, v)" by (cases a)
  from Cons.prems a have k: "k \<notin> fst ` set al" and d: "distinct (map fst al)" by simp_all
  have "map (\<lambda>k'. case map_of (a # al) k' of Some q \<Rightarrow> q | None \<Rightarrow> 0) (map fst al)
      = map (\<lambda>k'. case map_of al k' of Some q \<Rightarrow> q | None \<Rightarrow> 0) (map fst al)"
    using k a by (intro map_cong) auto
  with Cons.IH [OF d] a show ?case by simp
qed

lemma quota_class_list:
  "quota d ls k = (case map_of (alloc d (length ls) 0 (class_list ls)) k of Some q \<Rightarrow> q | None \<Rightarrow> 0)"
  by (simp add: quota_def)

lemma class_list_keys: "map fst (class_list ls) = remdups ls"
  by (simp add: class_list_def comp_def)

lemma class_list_entry: "(k, c) \<in> set (class_list ls) \<Longrightarrow> c = count_list ls k"
  by (auto simp: class_list_def)

lemma sum_class_list: "sum_list (map snd (class_list ls)) = length ls"
proof -
  have "sum_list (map snd (class_list ls)) = sum_list (map (count_list ls) (remdups ls))"
    by (simp add: class_list_def comp_def)
  also have "\<dots> = sum (count_list ls) (set ls)"
    by (simp add: sum_list_distinct_conv_sum_set)
  also have "\<dots> = length ls"
    by (rule sum_count_set) simp_all
  finally show ?thesis .
qed

lemma quota_notin: "k \<notin> set ls \<Longrightarrow> quota d ls k = 0"
proof -
  assume "k \<notin> set ls"
  then have "k \<notin> fst ` set (alloc d (length ls) 0 (class_list ls))"
    using alloc_keys [of d "length ls" 0 "class_list ls"] class_list_keys [of ls]
    by (metis list.set_map set_remdups)
  then have "map_of (alloc d (length ls) 0 (class_list ls)) k = None"
    by (simp add: map_of_eq_None_iff)
  then show ?thesis by (simp add: quota_class_list)
qed

lemma quota_share:
  assumes "k \<in> set ls"
  shows "\<exists>p. quota d ls k = ((p + count_list ls k) * d) div length ls - (p * d) div length ls"
proof -
  let ?al = "alloc d (length ls) 0 (class_list ls)"
  from assms have "k \<in> fst ` set ?al"
    using alloc_keys [of d "length ls" 0 "class_list ls"] class_list_keys [of ls]
    by (metis list.set_map set_remdups)
  then obtain q where q: "map_of ?al k = Some q"
    by (cases "map_of ?al k") (auto simp: map_of_eq_None_iff)
  then have "(k, q) \<in> set ?al" by (rule map_of_SomeD)
  from alloc_entry [OF this] obtain p c where
    pc: "(k, c) \<in> set (class_list ls)" "q = ((p + c) * d) div length ls - (p * d) div length ls"
    by blast
  from pc(1) have "c = count_list ls k" by (rule class_list_entry)
  with pc(2) q show ?thesis by (auto simp: quota_class_list)
qed

lemma quota_le:
  assumes "d \<le> length ls"
  shows "quota d ls k \<le> count_list ls k"
proof (cases "k \<in> set ls")
  case True
  then have "0 < length ls" by (cases ls) auto
  with quota_share [OF True, of d] assms show ?thesis
    by (auto simp: share_le)
next
  case False
  then show ?thesis by (simp add: quota_notin)
qed

lemma quota_close:
  assumes "0 < length ls"
  shows "\<bar>int (quota d ls k) * int (length ls) - int (count_list ls k) * int d\<bar> < int (length ls)"
proof (cases "k \<in> set ls")
  case True
  from quota_share [OF True, of d] obtain p where
    "quota d ls k = ((p + count_list ls k) * d) div length ls - (p * d) div length ls"
    by blast
  with share_close [OF assms, of p "count_list ls k" d] show ?thesis by simp
next
  case False
  then have "quota d ls k = 0" "count_list ls k = 0"
    by (simp_all add: quota_notin)
  with assms show ?thesis by simp
qed

lemma quota_sum:
  assumes "0 < length ls"
  shows "sum (quota d ls) (set ls) = d"
proof -
  let ?al = "alloc d (length ls) 0 (class_list ls)"
  have keys: "map fst ?al = remdups ls"
    by (simp add: alloc_keys class_list_keys)
  then have "distinct (map fst ?al)" by simp
  from map_of_lookup_keys [OF this]
  have "map (quota d ls) (remdups ls) = map snd ?al"
    unfolding keys by (simp add: quota_class_list [abs_def])
  then have "sum_list (map (quota d ls) (remdups ls)) = sum_list (map snd ?al)"
    by simp
  also have "\<dots> = (length ls * d) div length ls"
    by (simp add: alloc_sum sum_class_list)
  also have "\<dots> = d" using assms by simp
  finally have "sum_list (map (quota d ls) (remdups ls)) = d" .
  then show ?thesis by (simp add: sum_list_distinct_conv_sum_set)
qed

subsection \<open>The draw\<close>

lemma count_list_nth_filter:
  "count_list ls k = length (filter (\<lambda>i. ls ! i = k) [0..<length ls])"
proof -
  have "filter ((=) k) ls = filter (\<lambda>v. v = k) ls"
    by (rule filter_cong) auto
  then have "count_list ls k = length (filter (\<lambda>v. v = k) (map (\<lambda>i. ls ! i) [0..<length ls]))"
    by (simp add: map_nth count_list_eq_length_filter)
  then show ?thesis by (simp add: filter_map comp_def)
qed

lemma order_count:
  assumes "mset order = mset [0..<length ls]"
  shows "length (filter (\<lambda>i. ls ! i = k) order) = count_list ls k"
proof -
  have "mset (filter (\<lambda>i. ls ! i = k) order) = mset (filter (\<lambda>i. ls ! i = k) [0..<length ls])"
    using assms by simp
  then have "length (filter (\<lambda>i. ls ! i = k) order)
      = length (filter (\<lambda>i. ls ! i = k) [0..<length ls])"
    by (rule mset_eq_length)
  then show ?thesis by (simp add: count_list_nth_filter)
qed

lemma count_list_map_filter: "count_list (map f xs) k = length (filter (\<lambda>x. f x = k) xs)"
  by (induction xs) simp_all

lemma mset_rotate: "mset (rotate n xs) = mset xs"
proof -
  let ?m = "n mod length xs"
  have "mset (rotate n xs) = mset (drop ?m xs) + mset (take ?m xs)"
    by (simp add: rotate_drop_take)
  also have "\<dots> = mset (take ?m xs) + mset (drop ?m xs)"
    by (rule add.commute)
  also have "\<dots> = mset (take ?m xs @ drop ?m xs)"
    by (rule mset_append [symmetric])
  also have "\<dots> = mset xs"
    by (simp only: append_take_drop_id)
  finally show ?thesis .
qed

lemma ref_draw_mset:
  "mset (fst (ref_draw seed d ls)) + mset (snd (ref_draw seed d ls)) = mset [0..<length ls]"
  by (simp only: ref_draw_def pick_mset mset_rotate)

lemma ref_draw_positions:
  "i \<in> set (fst (ref_draw seed d ls)) \<union> set (snd (ref_draw seed d ls)) \<Longrightarrow> i < length ls"
proof -
  assume "i \<in> set (fst (ref_draw seed d ls)) \<union> set (snd (ref_draw seed d ls))"
  then have "i \<in># mset (fst (ref_draw seed d ls)) + mset (snd (ref_draw seed d ls))"
    by simp
  then have "i \<in># mset [0..<length ls]" by (simp only: ref_draw_mset)
  then show ?thesis by simp
qed

lemma ref_draw_train_count:
  assumes "d \<le> length ls"
  shows "length (filter (\<lambda>i. ls ! i = k) (fst (ref_draw seed d ls))) = quota d ls k"
proof -
  have "mset (rotate seed [0..<length ls]) = mset [0..<length ls]" by (rule mset_rotate)
  then have "length (filter (\<lambda>i. ls ! i = k) (rotate seed [0..<length ls])) = count_list ls k"
    by (rule order_count)
  then show ?thesis
    using quota_le [OF assms, of k] by (simp add: ref_draw_def pick_train_count)
qed

lemma ref_draw_test_count:
  assumes "d \<le> length ls"
  shows "length (filter (\<lambda>i. ls ! i = k) (snd (ref_draw seed d ls)))
     = count_list ls k - quota d ls k"
proof -
  have "mset (rotate seed [0..<length ls]) = mset [0..<length ls]" by (rule mset_rotate)
  then have "length (filter (\<lambda>i. ls ! i = k) (rotate seed [0..<length ls])) = count_list ls k"
    by (rule order_count)
  then show ?thesis
    using quota_le [OF assms, of k] by (simp add: ref_draw_def pick_test_count)
qed

lemma ref_draw_train_length:
  assumes "d \<le> length ls" "0 < length ls"
  shows "length (fst (ref_draw seed d ls)) = d"
proof -
  let ?tr = "fst (ref_draw seed d ls)"
  let ?keys = "map (\<lambda>i. ls ! i) ?tr"
  have sub: "set ?keys \<subseteq> set ls"
    using ref_draw_positions [of _ seed d ls] by auto
  have "length ?tr = length ?keys" by simp
  also have "\<dots> = sum (count_list ?keys) (set ls)"
    using sub by (simp add: sum_count_set)
  also have "\<dots> = sum (quota d ls) (set ls)"
    by (rule sum.cong) (simp_all add: count_list_map_filter ref_draw_train_count [OF assms(1)])
  also have "\<dots> = d" by (rule quota_sum [OF assms(2)])
  finally show ?thesis .
qed

lemma ref_draw_test_length:
  assumes "d \<le> length ls" "0 < length ls"
  shows "length (snd (ref_draw seed d ls)) = length ls - d"
proof -
  have "size (mset (fst (ref_draw seed d ls)) + mset (snd (ref_draw seed d ls)))
      = size (mset [0..<length ls])"
    by (simp only: ref_draw_mset)
  then show ?thesis using ref_draw_train_length [OF assms, of seed] by simp
qed

subsection \<open>The four properties hold of the reference splitter\<close>

lemma ref_error_None_iff:
  "ref_error x y ts st = None \<longleftrightarrow>
     nrows y = nrows x \<and> nrows st = nrows x \<and> 0 < ts \<and> ts < 1
     \<and> n_test_of ts (nrows x) < nrows x
     \<and> 2 \<le> least_class_count st
     \<and> length (remdups (label_rows st)) \<le> nrows x - n_test_of ts (nrows x)
     \<and> length (remdups (label_rows st)) \<le> n_test_of ts (nrows x)"
  by (auto simp: ref_error_def Let_def)

lemma ref_split_error:
  "ref_error x y ts st = Some msg \<Longrightarrow> ref_split g x y ts st rs = (Inl (ValueError msg), g)"
  by (simp add: ref_split_def)

lemma ref_split_result:
  fixes x :: "'c dataframe"
  assumes "ref_error x y ts st = None"
  shows "(ref_split g x y ts st rs :: ('p error + _) \<times> nat) =
     (Inr (iloc x (fst (ref_draw (case rs of Some s \<Rightarrow> nat \<bar>s\<bar> | None \<Rightarrow> g)
                          (nrows x - n_test_of ts (nrows x)) (label_rows st))),
           iloc x (snd (ref_draw (case rs of Some s \<Rightarrow> nat \<bar>s\<bar> | None \<Rightarrow> g)
                          (nrows x - n_test_of ts (nrows x)) (label_rows st))),
           iloc y (fst (ref_draw (case rs of Some s \<Rightarrow> nat \<bar>s\<bar> | None \<Rightarrow> g)
                          (nrows x - n_test_of ts (nrows x)) (label_rows st))),
           iloc y (snd (ref_draw (case rs of Some s \<Rightarrow> nat \<bar>s\<bar> | None \<Rightarrow> g)
                          (nrows x - n_test_of ts (nrows x)) (label_rows st)))),
      case rs of Some s \<Rightarrow> g | None \<Rightarrow> Suc g)"
  using assms by (simp add: ref_split_def Let_def case_prod_unfold)

lemma ref_split_InrD:
  assumes "ref_split g x y ts st rs = (Inr (a, b, c, d), g')"
  obtains tr te where "ref_error x y ts st = None"
    and "(tr, te) = ref_draw (case rs of Some s \<Rightarrow> nat \<bar>s\<bar> | None \<Rightarrow> g)
                          (nrows x - n_test_of ts (nrows x)) (label_rows st)"
    and "a = iloc x tr" "b = iloc x te" "c = iloc y tr" "d = iloc y te"
proof (cases "ref_error x y ts st")
  case None
  let ?D = "ref_draw (case rs of Some s \<Rightarrow> nat \<bar>s\<bar> | None \<Rightarrow> g)
                          (nrows x - n_test_of ts (nrows x)) (label_rows st)"
  from assms that [OF None, of "fst ?D" "snd ?D"] show ?thesis
    by (simp add: ref_split_result [OF None])
next
  case (Some msg)
  with assms show ?thesis by (simp add: ref_split_error)
qed




lemma ref_split_partitions: "tts_partitions (ref_split :: (nat, 'c, 'p) train_test_split)"
  unfolding tts_partitions_def
proof (intro allI impI)
  fix g :: nat and x y :: "'c dataframe" and ts rs a b c d g'
  assume ix: "df_index y = df_index x"
    and r: "(ref_split g x y ts y rs :: ('p error + _) \<times> nat) = (Inr (a, b, c, d), g')"
  from ix have n: "nrows y = nrows x" by (simp add: nrows_def)
  from r obtain tr te where
    dr: "(tr, te) = ref_draw (case rs of Some s \<Rightarrow> nat \<bar>s\<bar> | None \<Rightarrow> g)
                          (nrows x - n_test_of ts (nrows x)) (label_rows y)"
    and abcd: "a = iloc x tr" "b = iloc x te" "c = iloc y tr" "d = iloc y te"
    by (rule ref_split_InrD)
  have "mset (fst (tr, te)) + mset (snd (tr, te)) = mset [0..<length (label_rows y)]"
    unfolding dr by (rule ref_draw_mset)
  then have m: "mset tr + mset te = mset [0..<nrows y]"
    by (simp only: fst_conv snd_conv length_label_rows)
  from m have mx: "mset tr + mset te = mset [0..<nrows x]" by (simp only: n)
  show "mset (rows a) + mset (rows b) = mset (rows x)
        \<and> mset (rows c) + mset (rows d) = mset (rows y)
        \<and> df_index c = df_index a \<and> df_index d = df_index b"
    unfolding abcd using mset_rows_iloc [OF mx] mset_rows_iloc [OF m]
    by (simp add: df_index_iloc ix)
qed

lemma ref_split_seeded: "tts_seeded (ref_split :: (nat, 'c, 'p) train_test_split)"
  unfolding tts_seeded_def
proof (intro allI)
  fix g g' :: nat and x y :: "'c dataframe" and ts s
  show "fst (ref_split g x y ts y (Some s) :: ('p error + _) \<times> nat)
      = fst (ref_split g' x y ts y (Some s))"
  proof (cases "ref_error x y ts y")
    case None
    then show ?thesis by (simp add: ref_split_result)
  next
    case (Some msg)
    then show ?thesis by (simp add: ref_split_error)
  qed
qed

lemma ref_split_sized: "tts_sized (ref_split :: (nat, 'c, 'p) train_test_split)"
  unfolding tts_sized_def
proof (intro allI impI)
  fix g :: nat and x y :: "'c dataframe" and ts rs a b c d g'
  assume ix: "df_index y = df_index x"
    and r: "(ref_split g x y ts y rs :: ('p error + _) \<times> nat) = (Inr (a, b, c, d), g')"
  from r obtain tr te where ok: "ref_error x y ts y = None"
    and dr: "(tr, te) = ref_draw (case rs of Some s \<Rightarrow> nat \<bar>s\<bar> | None \<Rightarrow> g)
                          (nrows x - n_test_of ts (nrows x)) (label_rows y)"
    and b: "b = iloc x te"
    by (rule ref_split_InrD)
  from ok have f: "nrows y = nrows x" "0 < ts" "n_test_of ts (nrows x) < nrows x"
    by (simp_all add: ref_error_None_iff)
  let ?n = "nrows x" and ?t = "n_test_of ts (nrows x)"
  have l: "length (label_rows y) = ?n" by (simp add: length_label_rows f(1))
  have "length (snd (tr, te)) = length (label_rows y) - (?n - ?t)"
    unfolding dr by (rule ref_draw_test_length) (use f(3) l in simp_all)
  then have "length te = ?t" using f(3) l by simp
  then show "int (nrows b) = \<lceil>fl (ts * of_nat (nrows x))\<rceil>"
    by (simp add: b nrows_iloc n_test_of_int [OF f(2)])
qed

lemma ref_split_stratified: "tts_stratified (ref_split :: (nat, 'c, 'p) train_test_split)"
  unfolding tts_stratified_def
proof (intro allI impI)
  fix g :: nat and x y :: "'c dataframe" and ts rs a b c d g' k
  assume ix: "df_index y = df_index x"
    and r: "(ref_split g x y ts y rs :: ('p error + _) \<times> nat) = (Inr (a, b, c, d), g')"
  from r obtain tr te where ok: "ref_error x y ts y = None"
    and dr: "(tr, te) = ref_draw (case rs of Some s \<Rightarrow> nat \<bar>s\<bar> | None \<Rightarrow> g)
                          (nrows x - n_test_of ts (nrows x)) (label_rows y)"
    and d: "d = iloc y te"
    by (rule ref_split_InrD)
  from ok have f: "nrows y = nrows x" "0 < ts" "n_test_of ts (nrows x) < nrows x"
    by (simp_all add: ref_error_None_iff)
  let ?n = "nrows x" and ?t = "n_test_of ts (nrows x)" and ?ls = "label_rows y"
  let ?d = "?n - ?t"
  have l: "length ?ls = ?n" by (simp add: length_label_rows f(1))
  have dle: "?d \<le> length ?ls" and pos: "0 < length ?ls" using f(3) l by simp_all
  have te: "te = snd (ref_draw (case rs of Some s \<Rightarrow> nat \<bar>s\<bar> | None \<Rightarrow> g) ?d ?ls)"
    using dr by (simp add: prod_eq_iff)
  have valid: "\<forall>i \<in> set te. i < nrows y"
    unfolding te using ref_draw_positions [of _ _ ?d ?ls] by (auto simp: length_label_rows)
  have len: "length te = ?t"
    unfolding te using ref_draw_test_length [OF dle pos] f(3) l by simp
  have cnt: "class_count d k = count_list ?ls k - quota ?d ?ls k"
    unfolding class_count_def d label_rows_iloc [OF valid] count_list_map_filter
    unfolding te by (rule ref_draw_test_count [OF dle])
  have qle: "quota ?d ?ls k \<le> count_list ?ls k" by (rule quota_le [OF dle])
  have close: "\<bar>int (quota ?d ?ls k) * int ?n - int (count_list ?ls k) * int ?d\<bar> < int ?n"
    using quota_close [OF pos, of ?d k] by (simp only: l)
  have e1: "int (count_list ?ls k - quota ?d ?ls k) * int ?n
      = int (count_list ?ls k) * int ?n - int (quota ?d ?ls k) * int ?n"
    using qle by (simp add: of_nat_diff left_diff_distrib)
  have e2: "int (count_list ?ls k) * int ?d
      = int (count_list ?ls k) * int ?n - int (count_list ?ls k) * int ?t"
    using f(3) by (simp add: of_nat_diff right_diff_distrib)
  have "\<bar>int (count_list ?ls k - quota ?d ?ls k) * int ?n - int (count_list ?ls k) * int ?t\<bar> < int ?n"
    using close e1 e2 by linarith
  moreover have "nrows d = ?t" by (simp add: d nrows_iloc len)
  moreover have "class_count y k = count_list ?ls k" by (simp add: class_count_def)
  ultimately show "\<bar>int (class_count d k) * int (nrows y) - int (class_count y k) * int (nrows d)\<bar>
      < int (nrows y)"
    by (simp only: cnt f(1))
qed

section \<open>Properties of \<open>split_data\<close>\<close>

subsection \<open>The two stages\<close>

lemma feature_columns_index [simp]: "df_index (feature_columns df col) = df_index df"
  by (simp add: feature_columns_def)

lemma label_columns_index [simp]: "df_index (label_columns df col) = df_index df"
  by (simp add: label_columns_def)

lemma split_data_no_column:
  "target_col \<notin> set (map col_name (df_columns dataset)) \<Longrightarrow>
     split_data tts self g dataset target_col = (Inl (KeyError target_col), g)"
  by (simp add: split_data_def drop_columns_def)

lemma split_data_unfold:
  "target_col \<in> set (map col_name (df_columns dataset)) \<Longrightarrow>
     split_data tts self g dataset target_col =
       (case tts g (feature_columns dataset target_col) (label_columns dataset target_col)
               (fl (test_size self)) (label_columns dataset target_col) (random_state self) of
          (Inl e, g1) \<Rightarrow> (Inl e, g1)
        | (Inr (xtv, x_test, ytv, y_test), g1) \<Rightarrow>
            if fl (1 - fl (test_size self)) = 0 then (Inl ZeroDivisionError, g1)
            else
              (case tts g1 xtv ytv (val_size_adjusted self) ytv (random_state self) of
                 (Inl e, g2) \<Rightarrow> (Inl e, g2)
               | (Inr (x_train, x_val, y_train, y_val), g2) \<Rightarrow>
                   (Inr (x_train, x_val, x_test, y_train, y_val, y_test), g2)))"
  by (simp add: split_data_def val_size_adjusted_def drop_columns_def getitem_def Let_def
      split: prod.splits sum.splits)

lemma split_data_stages:
  assumes "target_col \<in> set (map col_name (df_columns dataset))"
    and "tts g (feature_columns dataset target_col) (label_columns dataset target_col)
           (fl (test_size self)) (label_columns dataset target_col) (random_state self)
           = (Inr (xtv, x_test, ytv, y_test), g1)"
    and "fl (1 - fl (test_size self)) \<noteq> 0"
    and "tts g1 xtv ytv (val_size_adjusted self) ytv (random_state self)
           = (Inr (x_train, x_val, y_train, y_val), g2)"
  shows "split_data tts self g dataset target_col
           = (Inr (x_train, x_val, x_test, y_train, y_val, y_test), g2)"
  using assms by (simp add: split_data_unfold)

lemma split_data_InrD:
  assumes "split_data tts self g dataset target_col
             = (Inr (x_train, x_val, x_test, y_train, y_val, y_test), g')"
  obtains xtv ytv g1 where
    "target_col \<in> set (map col_name (df_columns dataset))"
    "tts g (feature_columns dataset target_col) (label_columns dataset target_col)
       (fl (test_size self)) (label_columns dataset target_col) (random_state self)
       = (Inr (xtv, x_test, ytv, y_test), g1)"
    "fl (1 - fl (test_size self)) \<noteq> 0"
    "tts g1 xtv ytv (val_size_adjusted self) ytv (random_state self)
       = (Inr (x_train, x_val, y_train, y_val), g')"
proof (cases "target_col \<in> set (map col_name (df_columns dataset))")
  case False
  with assms show ?thesis by (simp add: split_data_no_column)
next
  case True
  from assms that [OF True] show ?thesis
    unfolding split_data_unfold [OF True]
    by (auto split: sum.splits prod.splits if_splits)
qed

text \<open>
  Where an error of \<open>split_data\<close> comes from: the missing column, the first call, the
  division, or the second call on what the first returned.
\<close>

lemma split_data_InlD:
  assumes "split_data tts self g dataset target_col = (Inl e, g')"
  shows "(target_col \<notin> set (map col_name (df_columns dataset)) \<and> e = KeyError target_col)
     \<or> tts g (feature_columns dataset target_col) (label_columns dataset target_col)
          (fl (test_size self)) (label_columns dataset target_col) (random_state self)
          = (Inl e, g')
     \<or> (\<exists>xtv x_test ytv y_test g1.
          tts g (feature_columns dataset target_col) (label_columns dataset target_col)
            (fl (test_size self)) (label_columns dataset target_col) (random_state self)
            = (Inr (xtv, x_test, ytv, y_test), g1)
          \<and> (fl (1 - fl (test_size self)) = 0 \<and> e = ZeroDivisionError
             \<or> tts g1 xtv ytv (val_size_adjusted self) ytv (random_state self) = (Inl e, g')))"
proof (cases "target_col \<in> set (map col_name (df_columns dataset))")
  case False
  with assms show ?thesis by (simp add: split_data_no_column)
next
  case True
  let ?x = "feature_columns dataset target_col" and ?y = "label_columns dataset target_col"
  obtain r1 g1 where r1: "tts g ?x ?y (fl (test_size self)) ?y (random_state self) = (r1, g1)"
    by (cases "tts g ?x ?y (fl (test_size self)) ?y (random_state self)")
  show ?thesis
  proof (cases r1)
    case (Inl e1)
    with assms r1 have "e = e1" "g' = g1" by (simp_all add: split_data_unfold [OF True])
    with Inl r1 show ?thesis by simp
  next
    case (Inr q)
    obtain a b c d where q: "q = (a, b, c, d)" by (cases q)
    show ?thesis
    proof (cases "fl (1 - fl (test_size self)) = 0")
      case True
      with assms r1 Inr q have "e = ZeroDivisionError"
        by (simp add: split_data_unfold [OF \<open>target_col \<in> _\<close>])
      with True r1 Inr q show ?thesis by blast
    next
      case False
      obtain r2 g2 where r2: "tts g1 a c (val_size_adjusted self) c (random_state self) = (r2, g2)"
        by (cases "tts g1 a c (val_size_adjusted self) c (random_state self)")
      show ?thesis
      proof (cases r2)
        case (Inl e2)
        with assms r1 Inr q False r2 have "e = e2" "g' = g2"
          by (simp_all add: split_data_unfold [OF \<open>target_col \<in> _\<close>])
        with Inl r2 have "tts g1 a c (val_size_adjusted self) c (random_state self) = (Inl e, g')"
          by simp
        with r1 \<open>r1 = Inr q\<close> q show ?thesis by blast
      next
        case r: (Inr q2)
        with assms r1 Inr q False r2 show ?thesis
          by (simp add: split_data_unfold [OF \<open>target_col \<in> _\<close>] split: prod.splits)
      qed
    qed
  qed
qed

lemma mset_index_rows: "mset (df_index df) = image_mset fst (mset (rows df))"
  by (simp only: map_fst_rows [symmetric] mset_map)

lemma mset_label_rows: "mset (label_rows df) = image_mset snd (mset (rows df))"
  by (simp add: label_rows_def)

lemma class_count_mset: "class_count df k = count (image_mset snd (mset (rows df))) k"
  by (simp only: class_count_def mset_label_rows [symmetric] count_mset)

lemma stage_partition:
  assumes "tts_partitions tts" "df_index y = df_index x"
    and "tts g x y ts y rs = (Inr (a, b, c, d), g')"
  shows "mset (df_index a) + mset (df_index b) = mset (df_index x)"
    and "df_index c = df_index a" and "df_index d = df_index b"
    and "nrows a + nrows b = nrows x"
    and "class_count c k + class_count d k = class_count y k"
    and "set (label_rows c) \<subseteq> set (label_rows y)"
proof -
  from assms have p: "mset (rows a) + mset (rows b) = mset (rows x)"
    "mset (rows c) + mset (rows d) = mset (rows y)"
    "df_index c = df_index a" "df_index d = df_index b"
    unfolding tts_partitions_def by blast+
  show i: "mset (df_index a) + mset (df_index b) = mset (df_index x)"
    by (simp only: mset_index_rows p(1) [symmetric] image_mset_union)
  show "df_index c = df_index a" "df_index d = df_index b" by (fact p(3), fact p(4))
  from i have "size (mset (df_index a) + mset (df_index b)) = size (mset (df_index x))"
    by simp
  then show "nrows a + nrows b = nrows x" by (simp add: nrows_def)
  show "class_count c k + class_count d k = class_count y k"
    by (simp only: class_count_mset p(2) [symmetric] image_mset_union count_union)
  have "mset (label_rows c) + mset (label_rows d) = mset (label_rows y)"
    by (simp only: mset_label_rows p(2) [symmetric] image_mset_union)
  then have "set_mset (mset (label_rows c)) \<subseteq> set_mset (mset (label_rows y))"
    by (metis set_mset_union Un_upper1)
  then show "set (label_rows c) \<subseteq> set (label_rows y)" by simp
qed


lemma nrows_eq_of_index: "df_index a = df_index b \<Longrightarrow> nrows a = nrows b"
  by (simp add: nrows_def)

lemma exact_share:
  assumes "\<bar>int c * int n - int cy * int t\<bar> < int n" and "cy * t = q * n"
  shows "c = q"
proof -
  have "int cy * int t = int q * int n"
    using assms(2) by (metis of_nat_mult)
  with assms(1) have "\<bar>(int c - int q) * int n\<bar> < int n"
    by (simp add: left_diff_distrib)
  then have h: "\<bar>int c - int q\<bar> * int n < 1 * int n"
    by (simp add: abs_mult)
  have "\<bar>int c - int q\<bar> < 1"
  proof (rule ccontr)
    assume "\<not> \<bar>int c - int q\<bar> < 1"
    then have "1 \<le> \<bar>int c - int q\<bar>" by simp
    then have "1 * int n \<le> \<bar>int c - int q\<bar> * int n"
      by (rule mult_right_mono) simp
    with h show False by simp
  qed
  then show ?thesis by simp
qed

lemma stage_exact:
  assumes P: "tts_partitions tts" and S: "tts_sized tts" and T: "tts_stratified tts"
    and ix: "df_index y = df_index x"
    and r: "tts g x y ts y rs = (Inr (a, b, c, d), g')"
    and t: "\<lceil>fl (ts * of_nat (nrows x))\<rceil> = int t"
    and q: "class_count y k * t = q * nrows x"
  shows "nrows b = t" and "nrows a + t = nrows x"
    and "class_count d k = q" and "class_count c k + q = class_count y k"
    and "df_index c = df_index a"
proof -
  note p = stage_partition [OF P ix r]
  from S ix r have "int (nrows b) = \<lceil>fl (ts * of_nat (nrows x))\<rceil>"
    unfolding tts_sized_def by blast
  with t show b: "nrows b = t" by simp
  with p(4) show "nrows a + t = nrows x" by simp
  from T ix r have "\<bar>int (class_count d k) * int (nrows y) - int (class_count y k) * int (nrows d)\<bar>
      < int (nrows y)"
    unfolding tts_stratified_def by blast
  moreover have "nrows d = t" using nrows_eq_of_index [OF p(3)] b by simp
  moreover have "nrows y = nrows x" using ix by (rule nrows_eq_of_index)
  ultimately have "\<bar>int (class_count d k) * int (nrows x) - int (class_count y k) * int t\<bar>
      < int (nrows x)"
    by simp
  then show d: "class_count d k = q" using q by (rule exact_share)
  from p(5) [of k] d show "class_count c k + q = class_count y k" by simp
  show "df_index c = df_index a" by (fact p(2))
qed

lemma scenario_stage1: "\<lceil>fl (fl (1 / 5) * of_nat 1000)\<rceil> = int 200"
  unfolding fl_fifth of_nat_numeral by code_simp

lemma scenario_stage2: "\<lceil>fl ((1 / 4) * of_nat 800)\<rceil> = int 200"
  unfolding of_nat_numeral by code_simp

lemma scenario_adjusted:
  "test_size self = 1 / 5 \<Longrightarrow> validation_size self = 1 / 5 \<Longrightarrow> val_size_adjusted self = 1 / 4"
  by (simp only: val_size_adjusted_def fl_fifth_by_four_fifths)

lemma scenario_generic:
  assumes P: "tts_partitions tts" and S: "tts_sized tts" and T: "tts_stratified tts"
    and ts: "test_size self = 1 / 5" and vs: "validation_size self = 1 / 5"
    and n: "nrows dataset = 1000"
    and k: "class_count (label_columns dataset target_col) k = 5 * m"
    and r: "split_data tts self g dataset target_col
              = (Inr (x_train, x_val, x_test, y_train, y_val, y_test), g')"
  shows "nrows x_train = 600 \<and> nrows x_val = 200 \<and> nrows x_test = 200
     \<and> class_count y_train k = 3 * m \<and> class_count y_val k = m \<and> class_count y_test k = m"
proof -
  let ?x = "feature_columns dataset target_col" and ?y = "label_columns dataset target_col"
  from r obtain xtv ytv g1 where
    s1: "tts g ?x ?y (fl (test_size self)) ?y (random_state self)
           = (Inr (xtv, x_test, ytv, y_test), g1)"
    and s2: "tts g1 xtv ytv (val_size_adjusted self) ytv (random_state self)
       = (Inr (x_train, x_val, y_train, y_val), g')"
    by (rule split_data_InrD)
  have ix: "df_index ?y = df_index ?x" by simp
  have nx: "nrows ?x = 1000" using n by (simp add: nrows_def)
  have t1: "\<lceil>fl (fl (test_size self) * of_nat (nrows ?x))\<rceil> = int 200"
    unfolding ts nx by (rule scenario_stage1)
  have q1: "class_count ?y k * 200 = m * nrows ?x"
    unfolding k nx by simp
  note a = stage_exact [OF P S T ix s1 t1 q1]
  from a(2) nx have n1: "nrows xtv = 800" by simp
  from a(4) k have c1: "class_count ytv k = 4 * m" by simp
  have t2: "\<lceil>fl (val_size_adjusted self * of_nat (nrows xtv))\<rceil> = int 200"
    unfolding scenario_adjusted [OF ts vs] n1 by (rule scenario_stage2)
  have q2: "class_count ytv k * 200 = m * nrows xtv"
    unfolding c1 n1 by simp
  note b = stage_exact [OF P S T a(5) s2 t2 q2]
  from b(2) n1 have "nrows x_train = 600" by simp
  moreover from b(4) c1 have "class_count y_train k = 3 * m" by simp
  ultimately show ?thesis using a(1) a(3) b(1) b(3) by simp
qed

subsection \<open>When both stages return, and which rows they give\<close>

lemma fold_min_ge: "(m::nat) \<le> fold min xs a \<longleftrightarrow> m \<le> a \<and> (\<forall>x \<in> set xs. m \<le> x)"
  by (induction xs arbitrary: a) auto

lemma least_class_count_ge:
  "m \<le> least_class_count y \<longleftrightarrow> m \<le> nrows y \<and> (\<forall>k \<in> set (label_rows y). m \<le> class_count y k)"
  by (simp add: least_class_count_def fold_min_ge)









subsection \<open>The example tables\<close>

lemma label_columns_purchases: "label_columns (purchases ls) ''Elegivel'' = labels_of ls"
  by (simp add: label_columns_def purchases_def labels_of_def)

lemma feature_columns_purchases: "feature_columns (purchases ls) ''Elegivel'' = features ls"
  by (simp add: feature_columns_def purchases_def features_def)

lemma purchases_has_target: "''Elegivel'' \<in> set (map col_name (df_columns (purchases ls)))"
  by (simp add: purchases_def)

lemma nrows_purchases: "nrows (purchases ls) = length ls"
  by (simp add: nrows_def purchases_def)

lemma nrows_features: "nrows (features ls) = length ls"
  by (simp add: nrows_def features_def)

lemma nrows_labels_of: "nrows (labels_of ls) = length ls"
  by (simp add: nrows_def labels_of_def)

lemma index_labels_features: "df_index (labels_of ls) = df_index (features ls)"
  by (simp add: labels_of_def features_def)

lemma label_rows_labels_of: "label_rows (labels_of ls) = map (\<lambda>v. [I v]) ls"
proof -
  have "label_rows (labels_of ls) = map (\<lambda>i. [I (ls ! i)]) [0..<length ls]"
    by (simp add: label_rows_def rows_def row_at_def nrows_def labels_of_def)
  also have "\<dots> = map (\<lambda>v. [I v]) (map (\<lambda>i. ls ! i) [0..<length ls])"
    by (simp add: comp_def)
  finally show ?thesis by (simp add: map_nth)
qed

lemma class_count_labels_of: "class_count (labels_of ls) [I v] = count_list ls v"
proof -
  have "inj (\<lambda>v. [I v])" by (simp add: inj_def)
  then show ?thesis
    unfolding class_count_def label_rows_labels_of by (rule count_list_map_conv)
qed

lemma count_list_replicate: "count_list (replicate n x) y = (if x = y then n else 0)"
  by (induction n) auto

lemma length_thousand: "length thousand_rows = 1000"
  by (simp add: thousand_rows_def)

lemma set_thousand: "set thousand_rows = {0, 1}"
  by (auto simp: thousand_rows_def)

lemma count_thousand: "count_list thousand_rows 1 = 200" "count_list thousand_rows 0 = 800"
  by (simp_all add: thousand_rows_def count_list_replicate)

lemma classes_thousand: "set (label_rows (labels_of thousand_rows)) = {[I 0], [I 1]}"
  by (simp add: label_rows_labels_of set_thousand)

lemma ref_error_two_classes:
  assumes "nrows y = nrows x" "0 < ts" "ts < 1"
    and "n_test_of ts (nrows x) < nrows x"
    and "2 \<le> n_test_of ts (nrows x)" "2 \<le> nrows x - n_test_of ts (nrows x)"
    and "set (label_rows y) \<subseteq> {k0, k1}"
    and "2 \<le> class_count y k0" "2 \<le> class_count y k1"
  shows "ref_error x y ts y = None"
proof -
  have "card (set (label_rows y)) \<le> card {k0, k1}"
    using assms(7) by (intro card_mono) simp_all
  also have "\<dots> \<le> 2" by (simp add: card_insert_if)
  finally have c: "length (remdups (label_rows y)) \<le> 2"
    by (simp add: length_remdups_card_conv)
  have "2 \<le> nrows y" using assms(1,4,5) by simp
  moreover have "\<forall>k \<in> set (label_rows y). 2 \<le> class_count y k"
    using assms(7,8,9) by auto
  ultimately have l: "2 \<le> least_class_count y" by (simp add: least_class_count_ge)
  from assms(1-6) c l show ?thesis
    by (simp add: ref_error_None_iff)
qed

lemma fl_fifth_bounds: "0 < fl (1 / 5)" "fl (1 / 5) < 1"
  by (simp_all add: fl_fifth)

lemma n_test_of_1000: "n_test_of (fl (1 / 5)) 1000 = 200"
  by (simp only: n_test_of_def scenario_stage1 nat_int)

lemma n_test_of_800: "n_test_of (1 / 4) 800 = 200"
  by (simp only: n_test_of_def scenario_stage2 nat_int)

lemma main_splitter_fields:
  "test_size main_splitter = 1 / 5" "validation_size main_splitter = 1 / 5"
  "random_state main_splitter = Some 1"
  by (simp_all add: main_splitter_def)

lemma main_splitter_adjusted: "val_size_adjusted main_splitter = 1 / 4"
  by (rule scenario_adjusted) (simp_all add: main_splitter_def)

lemma main_splitter_divides: "fl (1 - fl (test_size main_splitter)) \<noteq> 0"
  by (simp add: main_splitter_fields fl_one_minus_fifth)

lemma tenth_splitter_adjusted: "val_size_adjusted tenth_splitter = 1 / 8"
  by (simp add: val_size_adjusted_def tenth_splitter_def fl_tenth_by_four_fifths)

lemma tenth_splitter_divides: "fl (1 - fl (test_size tenth_splitter)) \<noteq> 0"
  by (simp add: tenth_splitter_def fl_one_minus_fifth)

lemma scenario_returns:
  "\<exists>x_train x_val x_test y_train y_val y_test g'.
     split_data (ref_split :: (nat, cell, 'p) train_test_split) main_splitter 0
        (purchases thousand_rows) ''Elegivel''
       = (Inr (x_train, x_val, x_test, y_train, y_val, y_test), g')"
proof -
  let ?tts = "ref_split :: (nat, cell, 'p) train_test_split"
  let ?x = "features thousand_rows" and ?y = "labels_of thousand_rows"
  have nx: "nrows ?x = 1000" and ny: "nrows ?y = 1000"
    by (simp_all add: nrows_features nrows_labels_of length_thousand)
  have c1: "class_count ?y [I 1] = 200" and c0: "class_count ?y [I 0] = 800"
    by (simp_all add: class_count_labels_of count_thousand)
  have e1: "ref_error ?x ?y (fl (1 / 5)) ?y = None"
    by (rule ref_error_two_classes [where ?k0.0 = "[I 0]" and ?k1.0 = "[I 1]"])
      (simp_all add: nx ny n_test_of_1000 classes_thousand c0 c1 fl_fifth_bounds)
  obtain a b c d g1 where s1: "?tts 0 ?x ?y (fl (1 / 5)) ?y (Some 1) = (Inr (a, b, c, d), g1)"
    using ref_split_result [OF e1, where ?'p = 'p] by blast
  have ix: "df_index ?y = df_index ?x" by (rule index_labels_features)
  have t1: "\<lceil>fl (fl (1 / 5) * of_nat (nrows ?x))\<rceil> = int 200"
    unfolding nx by (rule scenario_stage1)
  note P = ref_split_partitions and S = ref_split_sized and T = ref_split_stratified
  have q1: "class_count ?y [I 1] * 200 = 40 * nrows ?x"
    and q0: "class_count ?y [I 0] * 200 = 160 * nrows ?x"
    unfolding c1 c0 nx by simp_all
  note f1 = stage_exact [OF P S T ix s1 t1 q1]
  note f0 = stage_exact [OF P S T ix s1 t1 q0]
  from f1(2) nx have na: "nrows a = 800" by simp
  from f1(5) have nc: "nrows c = nrows a" by (rule nrows_eq_of_index)
  from f1(4) c1 have k1: "class_count c [I 1] = 160" by simp
  from f0(4) c0 have k0: "class_count c [I 0] = 640" by simp
  have sub: "set (label_rows c) \<subseteq> {[I 0], [I 1]}"
    using stage_partition(6) [OF P ix s1] by (simp only: classes_thousand)
  have e2: "ref_error a c (1 / 4) c = None"
    by (rule ref_error_two_classes [where ?k0.0 = "[I 0]" and ?k1.0 = "[I 1]"])
      (simp_all add: nc na n_test_of_800 sub k0 k1)
  obtain a2 v2 c2 d2 g2 where
    s2: "?tts g1 a c (1 / 4) c (Some 1) = (Inr (a2, v2, c2, d2), g2)"
    using ref_split_result [OF e2, where ?'p = 'p] by blast
  let ?d = "purchases thousand_rows" and ?t = "''Elegivel''"
  have h2: "?tts 0 (feature_columns ?d ?t) (label_columns ?d ?t) (fl (test_size main_splitter))
      (label_columns ?d ?t) (random_state main_splitter) = (Inr (a, b, c, d), g1)"
    unfolding feature_columns_purchases label_columns_purchases main_splitter_fields
    by (rule s1)
  have h4: "?tts g1 a c (val_size_adjusted main_splitter) c
      (random_state main_splitter) = (Inr (a2, v2, c2, d2), g2)"
    unfolding main_splitter_fields main_splitter_adjusted by (rule s2)
  have "split_data ?tts main_splitter 0 (purchases thousand_rows) ''Elegivel''
      = (Inr (a2, v2, b, c2, d2, d), g2)"
    by (rule split_data_stages [where tts = ?tts and self = main_splitter,
          OF purchases_has_target h2 main_splitter_divides h4])
  then show ?thesis by blast
qed

text \<open>
  The reference splitter on the small tables. The rows it gives each part are its own
  choice; the sizes of the parts and, on \<open>twenty_rows\<close> and \<open>rare_rows\<close>, the members
  of each class in each part are what the library's allocation gives for every seed.
\<close>

lemma four_rows_split:
  "split_data (ref_split :: (nat, cell, string) train_test_split) main_splitter 0
      (purchases four_rows) ''Elegivel''
     = (Inl (ValueError ''test_size less than the number of classes''), 0)"
  by code_simp

lemma four_rows_stage1:
  "(ref_split :: (nat, cell, string) train_test_split) 0
      (feature_columns (purchases four_rows) ''Elegivel'')
      (label_columns (purchases four_rows) ''Elegivel'') (fl (test_size main_splitter))
      (label_columns (purchases four_rows) ''Elegivel'') (random_state main_splitter)
     = (Inl (ValueError ''test_size less than the number of classes''), 0)"
  by code_simp




lemma rare_rows_stage1:
  "(ref_split :: (nat, cell, string) train_test_split) 0
      (feature_columns (purchases rare_rows) ''Elegivel'')
      (label_columns (purchases rare_rows) ''Elegivel'') (fl (test_size tenth_splitter))
      (label_columns (purchases rare_rows) ''Elegivel'') (random_state tenth_splitter)
     = (Inr (iloc (features rare_rows) [1, 2, 3, 4, 5, 6, 7, 8, 9, 10, 11, 12, 13, 14, 18, 19],
             iloc (features rare_rows) [15, 16, 17, 0],
             iloc (labels_of rare_rows) [1, 2, 3, 4, 5, 6, 7, 8, 9, 10, 11, 12, 13, 14, 18, 19],
             iloc (labels_of rare_rows) [15, 16, 17, 0]), 0)"
  by code_simp

lemma rare_rows_stage2:
  "(ref_split :: (nat, cell, string) train_test_split) 0
      (iloc (features rare_rows) [1, 2, 3, 4, 5, 6, 7, 8, 9, 10, 11, 12, 13, 14, 18, 19])
      (iloc (labels_of rare_rows) [1, 2, 3, 4, 5, 6, 7, 8, 9, 10, 11, 12, 13, 14, 18, 19])
      (val_size_adjusted tenth_splitter)
      (iloc (labels_of rare_rows) [1, 2, 3, 4, 5, 6, 7, 8, 9, 10, 11, 12, 13, 14, 18, 19])
      (random_state tenth_splitter)
     = (Inr (iloc (features rare_rows) [2, 3, 4, 5, 6, 7, 8, 9, 10, 11, 12, 13, 18, 19],
             iloc (features rare_rows) [14, 1],
             iloc (labels_of rare_rows) [2, 3, 4, 5, 6, 7, 8, 9, 10, 11, 12, 13, 18, 19],
             iloc (labels_of rare_rows) [14, 1]), 0)"
  unfolding tenth_splitter_adjusted by code_simp

lemma rare_rows_split:
  "split_data (ref_split :: (nat, cell, string) train_test_split) tenth_splitter 0
      (purchases rare_rows) ''Elegivel''
     = (Inr (iloc (features rare_rows) [2, 3, 4, 5, 6, 7, 8, 9, 10, 11, 12, 13, 18, 19],
             iloc (features rare_rows) [14, 1], iloc (features rare_rows) [15, 16, 17, 0],
             iloc (labels_of rare_rows) [2, 3, 4, 5, 6, 7, 8, 9, 10, 11, 12, 13, 18, 19],
             iloc (labels_of rare_rows) [14, 1], iloc (labels_of rare_rows) [15, 16, 17, 0]), 0)"
  by (rule split_data_stages
        [where tts = "ref_split :: (nat, cell, string) train_test_split" and self = tenth_splitter,
         OF purchases_has_target rare_rows_stage1 tenth_splitter_divides rare_rows_stage2])

lemma rare_rows_members:
  "class_count (label_columns (purchases rare_rows) ''Elegivel'') [I 1] = 2"
  "class_count (iloc (labels_of rare_rows) [2, 3, 4, 5, 6, 7, 8, 9, 10, 11, 12, 13, 18, 19]) [I 1] = 2"
  "class_count (iloc (labels_of rare_rows) [14, 1]) [I 1] = 0"
  "class_count (iloc (labels_of rare_rows) [15, 16, 17, 0]) [I 1] = 0"
  by code_simp+

lemma rare_rows_sizes:
  "nrows (iloc (features rare_rows) [2, 3, 4, 5, 6, 7, 8, 9, 10, 11, 12, 13, 18, 19]) = 14"
  "nrows (iloc (features rare_rows) [14, 1]) = 2"
  "nrows (iloc (features rare_rows) [15, 16, 17, 0]) = 4"
  by (simp_all add: nrows_iloc)

subsection \<open>The claims\<close>




text \<open>
  C3. Two calls of \<open>split_data\<close> with the same table, target column, fractions and
  seed return the same result (the same partitions, in the same order, or the same
  error), whatever the state of the global random generator at each call: the seed is
  handed to both calls of \<open>train_test_split\<close>, and a seeded call of the library does
  not depend on that state.
\<close>

theorem split_data_deterministic:
  assumes "tts_seeded tts" and "random_state self = Some s"
  shows "fst (split_data tts self g dataset target_col)
       = fst (split_data tts self g' dataset target_col)"
proof (cases "target_col \<in> set (map col_name (df_columns dataset))")
  case False
  then show ?thesis by (simp add: split_data_no_column)
next
  case True
  let ?x = "feature_columns dataset target_col" and ?y = "label_columns dataset target_col"
  let ?t = "fl (test_size self)"
  obtain r1 g1 where r1: "tts g ?x ?y ?t ?y (Some s) = (r1, g1)"
    by (cases "tts g ?x ?y ?t ?y (Some s)")
  obtain r1' g1' where r1': "tts g' ?x ?y ?t ?y (Some s) = (r1', g1')"
    by (cases "tts g' ?x ?y ?t ?y (Some s)")
  from assms(1) have "fst (tts g ?x ?y ?t ?y (Some s))
      = fst (tts g' ?x ?y ?t ?y (Some s))"
    unfolding tts_seeded_def by blast
  with r1 r1' have e1: "r1' = r1" by simp
  show ?thesis
  proof (cases r1)
    case (Inl e)
    with r1 r1' e1 assms(2) show ?thesis by (simp add: split_data_unfold [OF True])
  next
    case (Inr q)
    obtain a b c d where q: "q = (a, b, c, d)" by (cases q)
    let ?v = "val_size_adjusted self"
    obtain r2 g2 where r2: "tts g1 a c ?v c (Some s) = (r2, g2)"
      by (cases "tts g1 a c ?v c (Some s)")
    obtain r2' g2' where r2': "tts g1' a c ?v c (Some s) = (r2', g2')"
      by (cases "tts g1' a c ?v c (Some s)")
    from assms(1) have "fst (tts g1 a c ?v c (Some s)) = fst (tts g1' a c ?v c (Some s))"
      unfolding tts_seeded_def by blast
    with r2 r2' have e2: "r2' = r2" by simp
    from r1 r1' e1 Inr q r2 r2' e2 assms(2) show ?thesis
      by (simp add: split_data_unfold [OF True] split: sum.splits prod.splits)
  qed
qed

theorem split_data_deterministic_witness:
  "tts_seeded (ref_split :: (nat, cell, string) train_test_split)
   \<and> random_state main_splitter = Some 1
   \<and> fst (split_data (ref_split :: (nat, cell, string) train_test_split) main_splitter 0
        (purchases ten_rows) ''Elegivel'')
     = fst (split_data (ref_split :: (nat, cell, string) train_test_split) main_splitter 7
        (purchases ten_rows) ''Elegivel'')"
  using split_data_deterministic [OF ref_split_seeded [where ?'c = cell and ?'p = string]
      main_splitter_fields(3),
      where g = 0 and g' = 7 and dataset = "purchases ten_rows" and target_col = "''Elegivel''"]
    ref_split_seeded [where ?'c = cell and ?'p = string] main_splitter_fields(3)
  by simp

text \<open>
  Without a seed two runs can differ, as they do in the reference splitter from the
  generator states 0 and 2: the hypothesis of C3 on the seed is needed.
\<close>

lemma unseeded_runs_differ:
  "fst (split_data (ref_split :: (nat, cell, string) train_test_split)
          (main_splitter\<lparr> random_state := None \<rparr>) 0 (purchases ten_rows) ''Elegivel'')
   \<noteq> fst (split_data (ref_split :: (nat, cell, string) train_test_split)
          (main_splitter\<lparr> random_state := None \<rparr>) 2 (purchases ten_rows) ''Elegivel'')"
  by code_simp

text \<open>
  C4, as the code has it. \<open>split_data\<close> checks nothing about the classes and has no
  error of its own for them. When it fails, either the target column is missing and the
  error is its \<open>KeyError\<close>; or the first call of \<open>train_test_split\<close>, on the features,
  the labels and the test fraction, raised the error; or that call returned and either
  the division by \<open>1 - test_size\<close> raised \<open>ZeroDivisionError\<close> or the second call, on
  the train part of the first and the rescaled fraction, raised the error. And when
  both calls return, \<open>split_data\<close> returns their partitions, whatever classes they
  hold.
\<close>

theorem split_data_no_class_check:
  "(split_data tts self g dataset target_col = (Inl e, g') \<longrightarrow>
      (target_col \<notin> set (map col_name (df_columns dataset)) \<and> e = KeyError target_col)
      \<or> tts g (feature_columns dataset target_col) (label_columns dataset target_col)
           (fl (test_size self)) (label_columns dataset target_col) (random_state self)
           = (Inl e, g')
      \<or> (\<exists>xtv x_test ytv y_test g1.
           tts g (feature_columns dataset target_col) (label_columns dataset target_col)
             (fl (test_size self)) (label_columns dataset target_col) (random_state self)
             = (Inr (xtv, x_test, ytv, y_test), g1)
           \<and> (fl (1 - fl (test_size self)) = 0 \<and> e = ZeroDivisionError
              \<or> tts g1 xtv ytv (val_size_adjusted self) ytv (random_state self) = (Inl e, g'))))
   \<and> (target_col \<in> set (map col_name (df_columns dataset))
      \<and> tts g (feature_columns dataset target_col) (label_columns dataset target_col)
           (fl (test_size self)) (label_columns dataset target_col) (random_state self)
           = (Inr (xtv, x_test, ytv, y_test), g1)
      \<and> fl (1 - fl (test_size self)) \<noteq> 0
      \<and> tts g1 xtv ytv (val_size_adjusted self) ytv (random_state self)
           = (Inr (x_train, x_val, y_train, y_val), g2)
      \<longrightarrow> split_data tts self g dataset target_col
           = (Inr (x_train, x_val, x_test, y_train, y_val, y_test), g2))"
  using split_data_InlD [of tts self g dataset target_col e g']
    split_data_stages [of target_col dataset tts g self xtv x_test ytv y_test g1
      x_train x_val y_train y_val g2]
  by blast

theorem split_data_no_class_check_witness:
  "split_data (ref_split :: (nat, cell, string) train_test_split) main_splitter 0
      (purchases four_rows) ''Elegivel''
     = (Inl (ValueError ''test_size less than the number of classes''), 0)
   \<and> (ref_split :: (nat, cell, string) train_test_split) 0
        (feature_columns (purchases four_rows) ''Elegivel'')
        (label_columns (purchases four_rows) ''Elegivel'') (fl (test_size main_splitter))
        (label_columns (purchases four_rows) ''Elegivel'') (random_state main_splitter)
       = (Inl (ValueError ''test_size less than the number of classes''), 0)
   \<and> ''Elegivel'' \<in> set (map col_name (df_columns (purchases rare_rows)))
   \<and> fl (1 - fl (test_size tenth_splitter)) \<noteq> 0
   \<and> (\<exists>xtv x_test ytv y_test g1 x_train x_val y_train y_val g2.
         (ref_split :: (nat, cell, string) train_test_split) 0
           (feature_columns (purchases rare_rows) ''Elegivel'')
           (label_columns (purchases rare_rows) ''Elegivel'') (fl (test_size tenth_splitter))
           (label_columns (purchases rare_rows) ''Elegivel'') (random_state tenth_splitter)
           = (Inr (xtv, x_test, ytv, y_test), g1)
       \<and> (ref_split :: (nat, cell, string) train_test_split) g1 xtv ytv
           (val_size_adjusted tenth_splitter) ytv (random_state tenth_splitter)
           = (Inr (x_train, x_val, y_train, y_val), g2)
       \<and> split_data (ref_split :: (nat, cell, string) train_test_split) tenth_splitter 0
           (purchases rare_rows) ''Elegivel''
           = (Inr (x_train, x_val, x_test, y_train, y_val, y_test), g2))"
proof -
  let ?tr1 = "[1, 2, 3, 4, 5, 6, 7, 8, 9, 10, 11, 12, 13, 14, 18, 19] :: nat list"
  let ?tr2 = "[2, 3, 4, 5, 6, 7, 8, 9, 10, 11, 12, 13, 18, 19] :: nat list"
  note t = split_data_no_class_check
    [where tts = "ref_split :: (nat, cell, string) train_test_split" and self = tenth_splitter
       and g = 0 and dataset = "purchases rare_rows" and target_col = "''Elegivel''"
       and xtv = "iloc (features rare_rows) ?tr1"
       and x_test = "iloc (features rare_rows) [15, 16, 17, 0]"
       and ytv = "iloc (labels_of rare_rows) ?tr1"
       and y_test = "iloc (labels_of rare_rows) [15, 16, 17, 0]" and ?g1.0 = 0
       and x_train = "iloc (features rare_rows) ?tr2"
       and x_val = "iloc (features rare_rows) [14, 1]"
       and y_train = "iloc (labels_of rare_rows) ?tr2"
       and y_val = "iloc (labels_of rare_rows) [14, 1]" and ?g2.0 = 0]
  from t purchases_has_target [of rare_rows] rare_rows_stage1 tenth_splitter_divides
    rare_rows_stage2
  have "split_data (ref_split :: (nat, cell, string) train_test_split) tenth_splitter 0
        (purchases rare_rows) ''Elegivel''
       = (Inr (iloc (features rare_rows) ?tr2, iloc (features rare_rows) [14, 1],
               iloc (features rare_rows) [15, 16, 17, 0],
               iloc (labels_of rare_rows) ?tr2, iloc (labels_of rare_rows) [14, 1],
               iloc (labels_of rare_rows) [15, 16, 17, 0]), 0)"
    by blast
  with rare_rows_stage1 rare_rows_stage2
  have "\<exists>xtv x_test ytv y_test g1 x_train x_val y_train y_val g2.
         (ref_split :: (nat, cell, string) train_test_split) 0
           (feature_columns (purchases rare_rows) ''Elegivel'')
           (label_columns (purchases rare_rows) ''Elegivel'') (fl (test_size tenth_splitter))
           (label_columns (purchases rare_rows) ''Elegivel'') (random_state tenth_splitter)
           = (Inr (xtv, x_test, ytv, y_test), g1)
       \<and> (ref_split :: (nat, cell, string) train_test_split) g1 xtv ytv
           (val_size_adjusted tenth_splitter) ytv (random_state tenth_splitter)
           = (Inr (x_train, x_val, y_train, y_val), g2)
       \<and> split_data (ref_split :: (nat, cell, string) train_test_split) tenth_splitter 0
           (purchases rare_rows) ''Elegivel''
           = (Inr (x_train, x_val, x_test, y_train, y_val, y_test), g2)"
    by blast
  with four_rows_split four_rows_stage1 purchases_has_target [of rare_rows]
    tenth_splitter_divides
  show ?thesis by blast
qed

text \<open>
  The claim of C4 as stated fails on twenty rows of which two are positive, too few to
  be in all three partitions, with the fractions 0.2 and 0.1: \<open>split_data\<close> returns
  partitions of 14, 2 and 4 rows, and the validation and test partitions hold no
  positive row. The shares of the two classes have different fractional parts at both
  stages (14.4 and 1.6 of 16, then 12.25 and 1.75 of 14), so these numbers of members
  are those of every draw.
\<close>

theorem split_data_no_class_check_counterexample:
  "class_count (label_columns (purchases rare_rows) ''Elegivel'') [I 1] = 2
   \<and> partition_sizes
        (split_data (ref_split :: (nat, cell, string) train_test_split) tenth_splitter 0
           (purchases rare_rows) ''Elegivel'') = Some (14, 2, 4)
   \<and> partition_members [I 1]
        (split_data (ref_split :: (nat, cell, string) train_test_split) tenth_splitter 0
           (purchases rare_rows) ''Elegivel'') = Some (2, 0, 0)"
  by (simp only: rare_rows_split partition_members_def partition_sizes_def fst_conv sum.case
      prod.case rare_rows_members rare_rows_sizes simp_thms)

text \<open>
  C8, as the code has it. For a table of 1000 rows of which 200 are positive, with both
  fractions 0.2: the second stage uses the fraction \<open>0.2 / 0.8 = 0.25\<close> of the remaining
  800 rows, so the test partition has 200 rows (40 positive), the validation partition
  200 rows (40 positive) and the train partition 600 rows (120 positive), for every
  seed. This is for a \<open>train_test_split\<close> that partitions, gives the test part
  \<open>ceil(test_size * n)\<close> rows and stratifies.
\<close>

theorem split_data_scenario:
  assumes "tts_partitions tts" and "tts_sized tts" and "tts_stratified tts"
    and "test_size self = 1 / 5" and "validation_size self = 1 / 5"
    and "nrows dataset = 1000"
    and "class_count (label_columns dataset target_col) positive = 200"
    and "split_data tts self g dataset target_col
           = (Inr (x_train, x_val, x_test, y_train, y_val, y_test), g')"
  shows "validation_size self / (1 - test_size self) = 1 / 4
     \<and> nrows x_test = 200 \<and> class_count y_test positive = 40
     \<and> nrows x_train = 600 \<and> class_count y_train positive = 120
     \<and> nrows x_val = 200 \<and> class_count y_val positive = 40
     \<and> val_size_adjusted self = 1 / 4"
proof -
  have "class_count (label_columns dataset target_col) positive = 5 * 40"
    using assms(7) by simp
  from scenario_generic [OF assms(1-6) this assms(8)] assms(4,5)
    scenario_adjusted [OF assms(4,5)]
  show ?thesis
    by simp
qed

theorem split_data_scenario_witness:
  "tts_partitions (ref_split :: (nat, cell, string) train_test_split)
   \<and> tts_sized (ref_split :: (nat, cell, string) train_test_split)
   \<and> tts_stratified (ref_split :: (nat, cell, string) train_test_split)
   \<and> test_size main_splitter = 1 / 5 \<and> validation_size main_splitter = 1 / 5
   \<and> nrows (purchases thousand_rows) = 1000
   \<and> class_count (label_columns (purchases thousand_rows) ''Elegivel'') [I 1] = 200
   \<and> partition_sizes
        (split_data (ref_split :: (nat, cell, string) train_test_split) main_splitter 0
           (purchases thousand_rows) ''Elegivel'') = Some (600, 200, 200)
   \<and> partition_members [I 1]
        (split_data (ref_split :: (nat, cell, string) train_test_split) main_splitter 0
           (purchases thousand_rows) ''Elegivel'') = Some (120, 40, 40)"
proof -
  let ?tts = "ref_split :: (nat, cell, string) train_test_split"
  have n: "nrows (purchases thousand_rows) = 1000"
    by (simp add: nrows_purchases length_thousand)
  have c: "class_count (label_columns (purchases thousand_rows) ''Elegivel'') [I 1] = 200"
    by (simp add: label_columns_purchases class_count_labels_of count_thousand)
  from scenario_returns [where ?'p = string]
  obtain x_train x_val x_test y_train y_val y_test g' where
    r: "split_data ?tts main_splitter 0 (purchases thousand_rows) ''Elegivel''
          = (Inr (x_train, x_val, x_test, y_train, y_val, y_test), g')"
    by blast
  from split_data_scenario [OF ref_split_partitions ref_split_sized ref_split_stratified
      main_splitter_fields(1,2) n c r]
  have "partition_sizes (split_data ?tts main_splitter 0 (purchases thousand_rows) ''Elegivel'')
        = Some (600, 200, 200)"
    and "partition_members [I 1]
          (split_data ?tts main_splitter 0 (purchases thousand_rows) ''Elegivel'')
        = Some (120, 40, 40)"
    by (simp_all add: r partition_sizes_def partition_members_def)
  with ref_split_partitions ref_split_sized ref_split_stratified main_splitter_fields(1,2) n c
  show ?thesis by blast
qed

text \<open>
  The claim of C8 as stated gives the train partition about 480 rows and the validation
  partition about 160: they have 600 and 200.
\<close>

theorem split_data_scenario_counterexample:
  "nrows (purchases thousand_rows) = 1000
   \<and> class_count (label_columns (purchases thousand_rows) ''Elegivel'') [I 1] = 200
   \<and> test_size main_splitter = 1 / 5 \<and> validation_size main_splitter = 1 / 5
   \<and> random_state main_splitter = Some 1
   \<and> partition_sizes
        (split_data (ref_split :: (nat, cell, string) train_test_split) main_splitter 0
           (purchases thousand_rows) ''Elegivel'') = Some (600, 200, 200)
   \<and> \<not> about 600 480 \<and> \<not> about 200 160"
proof -
  let ?tts = "ref_split :: (nat, cell, string) train_test_split"
  have n: "nrows (purchases thousand_rows) = 1000"
    by (simp add: nrows_purchases length_thousand)
  have c: "class_count (label_columns (purchases thousand_rows) ''Elegivel'') [I 1] = 5 * 40"
    by (simp add: label_columns_purchases class_count_labels_of count_thousand)
  from scenario_returns [where ?'p = string]
  obtain x_train x_val x_test y_train y_val y_test g' where
    r: "split_data ?tts main_splitter 0 (purchases thousand_rows) ''Elegivel''
          = (Inr (x_train, x_val, x_test, y_train, y_val, y_test), g')"
    by blast
  from scenario_generic [OF ref_split_partitions ref_split_sized ref_split_stratified
      main_splitter_fields(1,2) n c r]
  have "partition_sizes (split_data ?tts main_splitter 0 (purchases thousand_rows) ''Elegivel'')
        = Some (600, 200, 200)"
    by (simp add: r partition_sizes_def)
  moreover have "\<not> about 600 480" "\<not> about 200 160"
    by (simp_all add: about_def)
  ultimately show ?thesis using n c main_splitter_fields by simp
qed


section \<open>Properties of \<open>catboost_pools\<close>\<close>

text \<open>
  With a name \<open>logger\<close> bound in the module, \<open>catboost_pools\<close> is the adapter the
  specification describes: three calls of \<open>Pool\<close>, their results returned in order.
\<close>

lemma catboost_pools_with_logger:
  assumes "''logger'' \<in> set globals"
    and "Pool x_train y_train categorical_cols = Inr train_pool"
    and "Pool x_val y_val categorical_cols = Inr val_pool"
    and "Pool x_test y_test categorical_cols = Inr test_pool"
  shows "catboost_pools globals Pool x_train x_val x_test y_train y_val y_test categorical_cols
     = Inr (train_pool, val_pool, test_pool)"
  using assms by (simp add: catboost_pools_def load_global_def)

text \<open>
  C9. The claim is that \<open>catboost_pools\<close> returns the three pools and raises nothing of
  its own. In \<open>train_model.py\<close> as it is, no name \<open>logger\<close> is bound, so every call
  stops at its first statement with \<open>NameError\<close>, whatever \<open>Pool\<close> and the arguments
  are, and no pool is built.
\<close>

theorem catboost_pools_name_error:
  "catboost_pools train_model_globals Pool x_train x_val x_test y_train y_val y_test categorical_cols
     = Inl (NameError ''logger'')"
  by (simp add: catboost_pools_def load_global_def train_model_globals_def)

end
